theory Spec2Isabelle
  imports Complex_Main "HOL-Library.Log_Nat"
begin

section \<open>JavaScript values\<close>

text \<open>
  The route descriptors handed to \<^verbatim>\<open>buildRoutes\<close> are plain objects whose three fields may
  hold any value, so the fields are modelled by a small universe of JavaScript values.
  Objects and functions carry an identity: \<^verbatim>\<open>===\<close> compares them by reference, and two
  values of this type are equal exactly when \<^verbatim>\<open>===\<close> holds (NaN is not part of the
  universe).
\<close>

datatype fclass = PlainFunction | AsyncFunction | GeneratorFunction

datatype fnref =
    EmptyMiddleware
  | UserFunction nat
  | GetAllAction | GetSingleAction | PutAction | PostAction | DeleteAction

datatype jsval =
    JUndefined
  | JNull
  | JBool bool
  | JNumber int
  | JString string
  | JStringObject nat string
  | JFunction fclass fnref
  | JObject nat

text \<open>\<^verbatim>\<open>!v\<close> is \<open>\<not> truthy v\<close>.\<close>

fun truthy :: "jsval \<Rightarrow> bool" where
  "truthy JUndefined = False"
| "truthy JNull = False"
| "truthy (JBool b) = b"
| "truthy (JNumber n) = (n \<noteq> 0)"
| "truthy (JString s) = (s \<noteq> [])"
| "truthy (JStringObject _ _) = True"
| "truthy (JFunction _ _) = True"
| "truthy (JObject _) = True"

fun typeof :: "jsval \<Rightarrow> string" where
  "typeof JUndefined = ''undefined''"
| "typeof JNull = ''object''"
| "typeof (JBool _) = ''boolean''"
| "typeof (JNumber _) = ''number''"
| "typeof (JString _) = ''string''"
| "typeof (JStringObject _ _) = ''object''"
| "typeof (JFunction _ _) = ''function''"
| "typeof (JObject _) = ''object''"

text \<open>\<^verbatim>\<open>v instanceof String\<close>\<close>

fun instanceofString :: "jsval \<Rightarrow> bool" where
  "instanceofString (JStringObject _ _) = True"
| "instanceofString _ = False"

text \<open>\<^verbatim>\<open>{}.toString.call(v)\<close>\<close>

fun objectToString :: "jsval \<Rightarrow> string" where
  "objectToString JUndefined = ''[object Undefined]''"
| "objectToString JNull = ''[object Null]''"
| "objectToString (JBool _) = ''[object Boolean]''"
| "objectToString (JNumber _) = ''[object Number]''"
| "objectToString (JString _) = ''[object String]''"
| "objectToString (JStringObject _ _) = ''[object String]''"
| "objectToString (JFunction PlainFunction _) = ''[object Function]''"
| "objectToString (JFunction AsyncFunction _) = ''[object AsyncFunction]''"
| "objectToString (JFunction GeneratorFunction _) = ''[object GeneratorFunction]''"
| "objectToString (JObject _) = ''[object Object]''"

text \<open>
  Values that can be thrown or passed to \<^verbatim>\<open>next\<close>: a primitive string
  (\<^verbatim>\<open>throw("Invalid Route object")\<close>) or an \<^verbatim>\<open>Error\<close> object with its optional
  \<^verbatim>\<open>status\<close> and its \<^verbatim>\<open>message\<close> (\<open>None\<close> is \<^verbatim>\<open>undefined\<close>).
\<close>

datatype thrown = ThrownString string | ErrorObject "nat option" "string option"

text \<open>\<^verbatim>\<open>e.message\<close>\<close>

fun message :: "thrown \<Rightarrow> string option" where
  "message (ThrownString _) = None"
| "message (ErrorObject _ m) = m"

fun status :: "thrown \<Rightarrow> nat option" where
  "status (ThrownString _) = None"
| "status (ErrorObject s _) = s"

section \<open>helpers.js\<close>

definition Err :: "nat \<Rightarrow> string option \<Rightarrow> thrown" where
  "Err st msg = ErrorObject (Some st) msg"

definition isFunction :: "jsval \<Rightarrow> bool" where
  "isFunction functionToCheck =
     (truthy functionToCheck \<and> objectToString functionToCheck = ''[object Function]'')"

text \<open>
  What one request's handlers can observe and do: the field \<^verbatim>\<open>req.crbResult\<close>, the calls of
  \<^verbatim>\<open>res.header\<close>, the calls of \<^verbatim>\<open>res.send\<close> and the calls of \<^verbatim>\<open>next\<close>
  (\<open>None\<close> for \<^verbatim>\<open>next()\<close>, \<open>Some e\<close> for \<^verbatim>\<open>next(e)\<close>), each in the order made.
\<close>

record 'b exchange =
  crbResult :: "'b option"
  headers :: "(string \<times> nat) list"
  sent :: "'b list"
  nexts :: "thrown option list"

text \<open>The function value \<^verbatim>\<open>emptyMiddleware\<close> and its body \<^verbatim>\<open>(req, res, next) => {next()}\<close>.\<close>

abbreviation emptyMiddlewareRef :: jsval where
  "emptyMiddlewareRef \<equiv> JFunction PlainFunction EmptyMiddleware"

definition emptyMiddleware :: "'b exchange \<Rightarrow> 'b exchange" where
  "emptyMiddleware x = x\<lparr>nexts := nexts x @ [None]\<rparr>"

text \<open>A route descriptor \<^verbatim>\<open>{method, route, function}\<close>; the last field is \<open>func\<close> here.\<close>

record Route =
  "method" :: jsval
  route :: jsval
  func :: jsval

definition extractMiddleware :: "Route list \<Rightarrow> jsval \<Rightarrow> jsval \<Rightarrow> jsval" where
  "extractMiddleware routes m p =
     (let middleware = filter (\<lambda>r. method r = m \<and> route r = p) routes
      in if length middleware > 0 then func (middleware ! 0) else emptyMiddlewareRef)"

definition sendCrbResult :: "jsval \<Rightarrow> 'b \<Rightarrow> 'b exchange \<Rightarrow> 'b exchange" where
  "sendCrbResult afterMiddleware data x =
     (if \<not> truthy afterMiddleware \<or> afterMiddleware = emptyMiddlewareRef
      then x\<lparr>sent := sent x @ [data]\<rparr>
      else x\<lparr>crbResult := Some data, nexts := nexts x @ [None]\<rparr>)"

section \<open>index.js: validation and registration\<close>

definition allowedMethods :: "jsval list" where
  "allowedMethods = [JString ''get'', JString ''post'', JString ''put'', JString ''delete'']"

fun validateRoutes :: "Route list \<Rightarrow> thrown + unit" where
  "validateRoutes [] = Inr ()"
| "validateRoutes (r # routes) =
     (if method r \<notin> set allowedMethods
         \<or> \<not> (typeof (route r) = ''string'' \<or> instanceofString (route r))
         \<or> \<not> isFunction (func r)
      then Inl (ThrownString ''Invalid Route object'')
      else validateRoutes routes)"

text \<open>
  The configuration object \<^verbatim>\<open>args\<close>: each field is an array or absent
  (\<^verbatim>\<open>args.extensions || []\<close>).
\<close>

record args =
  extensions :: "Route list option"
  before :: "Route list option"
  after :: "Route list option"

definition orEmpty :: "'a list option \<Rightarrow> 'a list" where
  "orEmpty v = (case v of None \<Rightarrow> [] | Some xs \<Rightarrow> xs)"

text \<open>
  One call \<^verbatim>\<open>router[verb](path, h1, h2, h3)\<close>; the router is the list of these calls in
  the order made.
\<close>

record registration =
  verb :: jsval
  path :: jsval
  handlers :: "jsval list"

definition defaultRoute :: "Route list \<Rightarrow> Route list \<Rightarrow> string \<Rightarrow> string \<Rightarrow> fnref \<Rightarrow> registration" where
  "defaultRoute bef aft m p action =
     \<lparr>verb = JString m, path = JString p,
      handlers = [extractMiddleware bef (JString m) (JString p),
                  JFunction PlainFunction action,
                  extractMiddleware aft (JString m) (JString p)]\<rparr>"

definition extensionRoute :: "Route list \<Rightarrow> Route list \<Rightarrow> Route \<Rightarrow> registration" where
  "extensionRoute bef aft ex =
     \<lparr>verb = method ex, path = route ex,
      handlers = [extractMiddleware bef (method ex) (route ex),
                  func ex,
                  extractMiddleware aft (method ex) (route ex)]\<rparr>"

definition buildRoutes :: "args \<Rightarrow> thrown + registration list" where
  "buildRoutes a =
     (let exts = orEmpty (extensions a); bef = orEmpty (before a); aft = orEmpty (after a)
      in case validateRoutes exts of Inl e \<Rightarrow> Inl e | Inr _ \<Rightarrow>
         (case validateRoutes bef of Inl e \<Rightarrow> Inl e | Inr _ \<Rightarrow>
         (case validateRoutes aft of Inl e \<Rightarrow> Inl e | Inr _ \<Rightarrow>
            Inr (map (extensionRoute bef aft) exts @
                 [defaultRoute bef aft ''get'' ''/all'' GetAllAction,
                  defaultRoute bef aft ''get'' ''/single/:id'' GetSingleAction,
                  defaultRoute bef aft ''put'' ''/:id'' PutAction,
                  defaultRoute bef aft ''post'' ''/'' PostAction,
                  defaultRoute bef aft ''delete'' ''/:id'' DeleteAction]))))"

section \<open>Strings and their coercion to numbers\<close>

text \<open>
  A string is a list of code units below 256 (ASCII and Latin-1); a value with a code unit
  from 256 on is outside this type. \<open>StringToNumber\<close> is the language's conversion of a
  string to a number, used by \<^verbatim>\<open>isNaN(val)\<close>, \<^verbatim>\<open>Number(val)\<close> and by the comparison of an
  index with a string: surrounding white space is dropped (below 256 that is TAB, LF, VT,
  FF, CR, the space and the no-break space U+00A0), the empty string is 0, then come the
  prefixed hexadecimal, octal and binary integers and the signed decimal literals with an
  optional fraction and exponent, and \<^verbatim>\<open>Infinity\<close>; everything else is NaN. The number
  of a literal is the double nearest to its mathematical value, ties going to the even
  significand: values from \<open>2 ^ 1024 - 2 ^ 970\<close> on become an infinity, values below half
  of \<open>2 ^ - 1074\<close> become zero, and a negated zero is the negative zero.
\<close>

datatype jsnum = NaN | Finite rat | NegZero | PosInfinity | NegInfinity

definition pow2 :: "int \<Rightarrow> rat" where
  "pow2 k = (if 0 \<le> k then 2 ^ nat k else 1 / 2 ^ nat (- k))"

text \<open>For \<open>0 < a\<close>, the \<open>k\<close> with \<open>2 ^ k \<le> a < 2 ^ (k + 1)\<close>.\<close>

definition floorLog2 :: "rat \<Rightarrow> int" where
  "floorLog2 a =
     (let d = bitlen (fst (quotient_of a)) - bitlen (snd (quotient_of a))
      in if pow2 d \<le> a then d else d - 1)"

definition roundHalfEven :: "rat \<Rightarrow> int" where
  "roundHalfEven x =
     (let f = \<lfloor>x\<rfloor>; d = x - of_int f
      in if d < 1 / 2 then f
         else if 1 / 2 < d then f + 1
         else if even f then f else f + 1)"

text \<open>
  The double of a rational \<open>0 \<le> a\<close>: a significand of at most 53 bits at the exponent of
  \<open>a\<close>, not below the exponent \<open>- 1074\<close> of the subnormal numbers.
\<close>

definition toDouble :: "rat \<Rightarrow> jsnum" where
  "toDouble a =
     (if a = 0 then Finite 0
      else
        (let e = max (floorLog2 a - 52) (- 1074);
             v = of_int (roundHalfEven (a / pow2 e)) * pow2 e
         in if pow2 1024 \<le> v then PosInfinity else Finite v))"

definition isStrWhiteSpaceChar :: "char \<Rightarrow> bool" where
  "isStrWhiteSpaceChar c = ((of_char c :: nat) \<in> {9, 10, 11, 12, 13, 32, 160})"

definition trim :: "string \<Rightarrow> string" where
  "trim s = rev (dropWhile isStrWhiteSpaceChar (rev (dropWhile isStrWhiteSpaceChar s)))"

definition digitVal :: "char \<Rightarrow> nat option" where
  "digitVal c =
     (let n = (of_char c :: nat)
      in if 48 \<le> n \<and> n \<le> 57 then Some (n - 48)
         else if 97 \<le> n \<and> n \<le> 102 then Some (n - 87)
         else if 65 \<le> n \<and> n \<le> 70 then Some (n - 55)
         else None)"

fun digitsValue :: "nat \<Rightarrow> string \<Rightarrow> nat \<Rightarrow> nat option" where
  "digitsValue b [] acc = Some acc"
| "digitsValue b (c # cs) acc =
     (case digitVal c of
        None \<Rightarrow> None
      | Some d \<Rightarrow> if d < b then digitsValue b cs (acc * b + d) else None)"

definition parseDigits :: "nat \<Rightarrow> string \<Rightarrow> nat option" where
  "parseDigits b s = (if s = [] then None else digitsValue b s 0)"

definition mantissa :: "string \<Rightarrow> string \<Rightarrow> rat option" where
  "mantissa ip fp =
     (if fp = [] then map_option of_nat (parseDigits 10 ip)
      else if ip = [] \<and> tl fp = [] then None
      else (case (digitsValue 10 ip 0, digitsValue 10 (tl fp) 0) of
              (Some a, Some b) \<Rightarrow> Some (of_nat a + of_nat b / 10 ^ length (tl fp))
            | _ \<Rightarrow> None))"

definition exponent :: "string \<Rightarrow> int option" where
  "exponent ex =
     (if ex = [] then Some 0
      else if take 1 (tl ex) = ''+'' then map_option int (parseDigits 10 (drop 1 (tl ex)))
      else if take 1 (tl ex) = ''-'' then map_option (\<lambda>n. - int n) (parseDigits 10 (drop 1 (tl ex)))
      else map_option int (parseDigits 10 (tl ex)))"

definition scale10 :: "rat \<Rightarrow> int \<Rightarrow> rat" where
  "scale10 m k = (if 0 \<le> k then m * 10 ^ nat k else m / 10 ^ nat (- k))"

definition unsignedDecimal :: "string \<Rightarrow> jsnum" where
  "unsignedDecimal s =
     (if s = ''Infinity'' then PosInfinity
      else
        (let notE = (\<lambda>c. c \<noteq> CHR ''e'' \<and> c \<noteq> CHR ''E'');
             notDot = (\<lambda>c. c \<noteq> CHR ''.'');
             mant = takeWhile notE s;
             ex = dropWhile notE s
         in case (mantissa (takeWhile notDot mant) (dropWhile notDot mant), exponent ex) of
              (Some m, Some k) \<Rightarrow> toDouble (scale10 m k)
            | _ \<Rightarrow> NaN))"

fun negate :: "jsnum \<Rightarrow> jsnum" where
  "negate NaN = NaN"
| "negate (Finite r) = (if r = 0 then NegZero else Finite (- r))"
| "negate NegZero = Finite 0"
| "negate PosInfinity = NegInfinity"
| "negate NegInfinity = PosInfinity"

definition radixLiteral :: "nat \<Rightarrow> string \<Rightarrow> jsnum" where
  "radixLiteral b ds = (case parseDigits b ds of None \<Rightarrow> NaN | Some n \<Rightarrow> toDouble (of_nat n))"

definition StringToNumber :: "string \<Rightarrow> jsnum" where
  "StringToNumber s =
     (let t = trim s
      in if t = [] then Finite 0
         else if take 2 t \<in> {''0x'', ''0X''} then radixLiteral 16 (drop 2 t)
         else if take 2 t \<in> {''0o'', ''0O''} then radixLiteral 8 (drop 2 t)
         else if take 2 t \<in> {''0b'', ''0B''} then radixLiteral 2 (drop 2 t)
         else if take 1 t = ''+'' then unsignedDecimal (drop 1 t)
         else if take 1 t = ''-'' then negate (unsignedDecimal (drop 1 t))
         else unsignedDecimal t)"

text \<open>\<^verbatim>\<open>isNaN(val)\<close> and \<^verbatim>\<open>Number(val)\<close> for a string \<^verbatim>\<open>val\<close>.\<close>

definition isNaN :: "string \<Rightarrow> bool" where
  "isNaN val = (StringToNumber val = NaN)"

definition Number :: "string \<Rightarrow> jsnum" where
  "Number val = StringToNumber val"

text \<open>
  \<^verbatim>\<open>val.toLowerCase()\<close>: below 256 the letters with a lower case are A to Z and the
  Latin-1 capitals U+00C0 to U+00DE without the multiplication sign U+00D7.
\<close>

definition toLowerChar :: "char \<Rightarrow> char" where
  "toLowerChar c =
     (if (65 \<le> (of_char c :: nat) \<and> (of_char c :: nat) \<le> 90)
         \<or> (192 \<le> (of_char c :: nat) \<and> (of_char c :: nat) \<le> 222 \<and> (of_char c :: nat) \<noteq> 215)
      then char_of ((of_char c :: nat) + 32) else c)"

definition toLowerCase :: "string \<Rightarrow> string" where
  "toLowerCase s = map toLowerChar s"

text \<open>\<^verbatim>\<open>i >= v\<close> and \<^verbatim>\<open>i <= v\<close> for an array index \<^verbatim>\<open>i\<close> and a string \<^verbatim>\<open>v\<close>.\<close>

definition indexGe :: "nat \<Rightarrow> string \<Rightarrow> bool" where
  "indexGe i v =
     (case StringToNumber v of
        NaN \<Rightarrow> False | Finite r \<Rightarrow> r \<le> of_nat i | NegZero \<Rightarrow> True
      | PosInfinity \<Rightarrow> False | NegInfinity \<Rightarrow> True)"

definition indexLe :: "nat \<Rightarrow> string \<Rightarrow> bool" where
  "indexLe i v =
     (case StringToNumber v of
        NaN \<Rightarrow> False | Finite r \<Rightarrow> of_nat i \<le> r | NegZero \<Rightarrow> i = 0
      | PosInfinity \<Rightarrow> True | NegInfinity \<Rightarrow> False)"

section \<open>index.js: the default actions\<close>

text \<open>
  The request's query object is an association list from parameter names to string
  values (\<^verbatim>\<open>req.query[f]\<close> is \<open>map_of q f\<close>, \<^verbatim>\<open>Object.keys(req.query)\<close> is \<open>map fst q\<close>).
  A parameter that the query parser turns into an array or an object (one given twice, or
  written with brackets) is outside this model.
  An entry of the filter object handed to \<^verbatim>\<open>Resource.find\<close> is a number, a boolean or the
  regular expression \<^verbatim>\<open>new RegExp(val, "i")\<close>, kept as its pattern and flags.
\<close>

type_synonym query = "(string \<times> string) list"

datatype fval = FNumber jsnum | FBool bool | FRegExp string string

text \<open>
  The body of the \<^verbatim>\<open>forEach\<close> over the recognised parameters. The regular-expression
  constructor is the language's: \<open>regExpError val\<close> is the exception it raises on the
  pattern \<^verbatim>\<open>val\<close>, if any.
\<close>

definition filterValue :: "(string \<Rightarrow> thrown option) \<Rightarrow> string \<Rightarrow> thrown + fval" where
  "filterValue regExpError val =
     (if \<not> isNaN val then Inr (FNumber (Number val))
      else if toLowerCase val \<in> set [''true'', ''false'']
      then Inr (FBool (toLowerCase val = ''true''))
      else (case regExpError val of
              Some e \<Rightarrow> Inl e
            | None \<Rightarrow> Inr (FRegExp val ''i'')))"

fun forEachFilter ::
  "(string \<Rightarrow> thrown option) \<Rightarrow> query \<Rightarrow> string list \<Rightarrow> (string \<rightharpoonup> fval) \<Rightarrow> thrown + (string \<rightharpoonup> fval)"
where
  "forEachFilter regExpError q [] filt = Inr filt"
| "forEachFilter regExpError q (f # fs) filt =
     (case map_of q f of
        None \<Rightarrow> Inl (ErrorObject None (Some ''Cannot read properties of undefined''))
      | Some val \<Rightarrow>
          (case filterValue regExpError val of
             Inl e \<Rightarrow> Inl e
           | Inr v \<Rightarrow> forEachFilter regExpError q fs (filt(f \<mapsto> v))))"

definition buildFilter ::
  "(string \<Rightarrow> thrown option) \<Rightarrow> string list \<Rightarrow> query \<Rightarrow> thrown + (string \<rightharpoonup> fval)"
where
  "buildFilter regExpError modelProps q =
     (let filters = filter (\<lambda>param. param \<in> set modelProps) (map fst q)
      in forEachFilter regExpError q filters Map.empty)"

text \<open>A query parameter is truthy when it is present and not the empty string.\<close>

definition present :: "string option \<Rightarrow> bool" where
  "present v = (case v of None \<Rightarrow> False | Some s \<Rightarrow> s \<noteq> [])"

text \<open>The argument of \<^verbatim>\<open>query.sort\<close>, or \<open>None\<close> when \<^verbatim>\<open>sort\<close> is not called.\<close>

definition sortOf :: "query \<Rightarrow> (string \<times> int) option" where
  "sortOf q =
     (if present (map_of q ''_sort'') \<and> present (map_of q ''_order'')
      then (if map_of q ''_order'' = Some ''ASC'' then Some (the (map_of q ''_sort''), 1)
            else if map_of q ''_order'' = Some ''DESC'' then Some (the (map_of q ''_sort''), - 1)
            else None)
      else None)"

text \<open>
  \<^verbatim>\<open>data.filter((o, i) => i >= req.query._start && i <= req.query._end)\<close>, applied when
  both parameters are defined.
\<close>

definition slice :: "query \<Rightarrow> 'd list \<Rightarrow> 'd list" where
  "slice q data =
     (case (map_of q ''_start'', map_of q ''_end'') of
        (Some s, Some e) \<Rightarrow>
          map fst (filter (\<lambda>(d, i). indexGe i s \<and> indexLe i e) (zip data [0..<length data]))
      | _ \<Rightarrow> data)"

text \<open>
  The outcome of a data-access call: it raises synchronously, or returns a promise that
  is rejected or resolved.
\<close>

datatype 'a access = Threw thrown | Rejected thrown | Resolved 'a

definition callNext :: "thrown option \<Rightarrow> 'b exchange \<Rightarrow> 'b exchange" where
  "callNext e x = x\<lparr>nexts := nexts x @ [e]\<rparr>"

text \<open>
  The five default actions are anonymous functions in the source; they are named after
  their routes here. GET /all: \<open>exec filt srt\<close> is the outcome of
  \<^verbatim>\<open>Resource.find(filter)\<close>, sorted as \<open>srt\<close> says, and executed.
\<close>

definition handleGetAll ::
  "(string \<Rightarrow> thrown option) \<Rightarrow> string list
     \<Rightarrow> ((string \<rightharpoonup> fval) \<Rightarrow> (string \<times> int) option \<Rightarrow> 'd list access)
     \<Rightarrow> jsval \<Rightarrow> query \<Rightarrow> 'd list exchange \<Rightarrow> 'd list exchange"
where
  "handleGetAll regExpError modelProps exec getAllAfterMiddleware q x =
     (case buildFilter regExpError modelProps q of
        Inl e \<Rightarrow> callNext (Some e) x
      | Inr filt \<Rightarrow>
          (case exec filt (sortOf q) of
             Threw e \<Rightarrow> callNext (Some e) x
           | Rejected e \<Rightarrow> callNext (Some (Err 400 (message e))) x
           | Resolved data \<Rightarrow>
               sendCrbResult getAllAfterMiddleware (slice q data)
                 (x\<lparr>headers := headers x @ [(''X-Total-Count'', length data)]\<rparr>)))"

text \<open>GET /single/:id, PUT /:id and POST /: one data-access call, then the dispatch.\<close>

definition handleGetSingle :: "'b access \<Rightarrow> jsval \<Rightarrow> 'b exchange \<Rightarrow> 'b exchange" where
  "handleGetSingle findOne getSingleAfterMiddleware x =
     (case findOne of
        Threw e \<Rightarrow> callNext (Some e) x
      | Rejected e \<Rightarrow> callNext (Some (Err 400 (message e))) x
      | Resolved data \<Rightarrow> sendCrbResult getSingleAfterMiddleware data x)"

definition handlePut :: "'b access \<Rightarrow> jsval \<Rightarrow> 'b exchange \<Rightarrow> 'b exchange" where
  "handlePut findByIdAndUpdate putAfterMiddleware x =
     (case findByIdAndUpdate of
        Threw e \<Rightarrow> callNext (Some e) x
      | Rejected e \<Rightarrow> callNext (Some (Err 400 (message e))) x
      | Resolved data \<Rightarrow> sendCrbResult putAfterMiddleware data x)"

definition handlePost :: "'b access \<Rightarrow> jsval \<Rightarrow> 'b exchange \<Rightarrow> 'b exchange" where
  "handlePost save postAfterMiddleware x =
     (case save of
        Threw e \<Rightarrow> callNext (Some e) x
      | Rejected e \<Rightarrow> callNext (Some (Err 400 (message e))) x
      | Resolved data \<Rightarrow> sendCrbResult postAfterMiddleware data x)"

text \<open>
  DELETE /:id. The promise has a \<^verbatim>\<open>then\<close> and no \<^verbatim>\<open>catch\<close>: on a rejection no handler
  runs, so neither \<^verbatim>\<open>next\<close> nor \<^verbatim>\<open>res.send\<close> is called.
\<close>

definition handleDelete :: "'b access \<Rightarrow> jsval \<Rightarrow> 'b exchange \<Rightarrow> 'b exchange" where
  "handleDelete removeExec deleteAfterMiddleware x =
     (case removeExec of
        Threw e \<Rightarrow> callNext (Some e) x
      | Rejected e \<Rightarrow> x
      | Resolved data \<Rightarrow> sendCrbResult deleteAfterMiddleware data x)"

section \<open>Properties\<close>

subsection \<open>Auxiliary facts\<close>

lemma validateRoutes_cases:
  "validateRoutes routes =
     (if \<forall>r\<in>set routes. method r \<in> set allowedMethods
            \<and> (typeof (route r) = ''string'' \<or> instanceofString (route r))
            \<and> isFunction (func r)
      then Inr () else Inl (ThrownString ''Invalid Route object''))"
  by (induction routes) auto

lemma typeof_string_iff: "typeof v = ''string'' \<longleftrightarrow> (\<exists>s. v = JString s)"
  by (cases v) auto

lemma instanceofString_iff: "instanceofString v \<longleftrightarrow> (\<exists>n s. v = JStringObject n s)"
  by (cases v) auto

lemma isFunction_iff: "isFunction v \<longleftrightarrow> (\<exists>f. v = JFunction PlainFunction f)"
proof (cases v)
  case (JFunction c f)
  then show ?thesis by (cases c) (auto simp: isFunction_def)
qed (auto simp: isFunction_def)

lemma buildRoutes_cases:
  "buildRoutes a =
     (if validateRoutes (orEmpty (extensions a)) = Inr ()
         \<and> validateRoutes (orEmpty (before a)) = Inr ()
         \<and> validateRoutes (orEmpty (after a)) = Inr ()
      then Inr (map (extensionRoute (orEmpty (before a)) (orEmpty (after a))) (orEmpty (extensions a)) @
                 [defaultRoute (orEmpty (before a)) (orEmpty (after a)) ''get'' ''/all'' GetAllAction,
                  defaultRoute (orEmpty (before a)) (orEmpty (after a)) ''get'' ''/single/:id'' GetSingleAction,
                  defaultRoute (orEmpty (before a)) (orEmpty (after a)) ''put'' ''/:id'' PutAction,
                  defaultRoute (orEmpty (before a)) (orEmpty (after a)) ''post'' ''/'' PostAction,
                  defaultRoute (orEmpty (before a)) (orEmpty (after a)) ''delete'' ''/:id'' DeleteAction])
      else Inl (ThrownString ''Invalid Route object''))"
  unfolding buildRoutes_def Let_def validateRoutes_cases
  by (simp split: sum.splits)

lemma extractMiddleware_find:
  "extractMiddleware routes m p =
     (case find (\<lambda>r. method r = m \<and> route r = p) routes of
        None \<Rightarrow> emptyMiddlewareRef | Some r \<Rightarrow> func r)"
  by (induction routes) (auto simp: extractMiddleware_def Let_def)

lemma find_append_cases:
  "find P (xs @ ys) = (case find P xs of None \<Rightarrow> find P ys | Some x \<Rightarrow> Some x)"
  by (induction xs) auto

lemma find_map_comp: "find P (map f xs) = map_option f (find (\<lambda>x. P (f x)) xs)"
  by (induction xs) auto

lemma find_first:
  "\<forall>x\<in>set ys. \<not> P x \<Longrightarrow> P r \<Longrightarrow> find P (ys @ r # zs) = Some r"
  by (induction ys) auto

lemma validateRoutes_malformed:
  assumes "r \<in> set routes"
    and "method r \<notin> set allowedMethods
         \<or> \<not> (typeof (route r) = ''string'' \<or> instanceofString (route r))
         \<or> \<not> isFunction (func r)"
  shows "validateRoutes routes = Inl (ThrownString ''Invalid Route object'')"
  using assms unfolding validateRoutes_cases by auto

lemma find_P: "find P xs = Some x \<Longrightarrow> P x"
  by (induction xs) (auto split: if_splits)

subsection \<open>The result dispatcher\<close>

text \<open>
  C1. A call of \<^verbatim>\<open>sendCrbResult\<close> does exactly one of two things: it sends the result with
  \<^verbatim>\<open>res.send\<close> and does not call \<^verbatim>\<open>next\<close>, or it stores the result in
  \<^verbatim>\<open>req.crbResult\<close>, calls \<^verbatim>\<open>next()\<close> once and sends nothing. The second happens
  exactly when the after-handler argument is truthy and is not \<^verbatim>\<open>emptyMiddleware\<close>; when
  the result is sent, \<^verbatim>\<open>req.crbResult\<close> is left as it was.
\<close>

theorem sendCrbResult_exactly_one:
  "((sent (sendCrbResult am d x) = sent x @ [d] \<and> nexts (sendCrbResult am d x) = nexts x)
      \<noteq> (crbResult (sendCrbResult am d x) = Some d
           \<and> nexts (sendCrbResult am d x) = nexts x @ [None]
           \<and> sent (sendCrbResult am d x) = sent x))
   \<and> ((crbResult (sendCrbResult am d x) = Some d
           \<and> nexts (sendCrbResult am d x) = nexts x @ [None]
           \<and> sent (sendCrbResult am d x) = sent x)
        = (truthy am \<and> am \<noteq> emptyMiddlewareRef))
   \<and> (sent (sendCrbResult am d x) = sent x @ [d]
        \<longrightarrow> crbResult (sendCrbResult am d x) = crbResult x)"
  by (auto simp: sendCrbResult_def)

theorem sendCrbResult_exactly_one_witness:
  "sent (sendCrbResult emptyMiddlewareRef (7::nat)
           \<lparr>crbResult = None, headers = [], sent = [], nexts = []\<rparr>) = [] @ [7]
   \<and> crbResult (sendCrbResult emptyMiddlewareRef (7::nat)
           \<lparr>crbResult = None, headers = [], sent = [], nexts = []\<rparr>) = None
   \<and> nexts (sendCrbResult emptyMiddlewareRef (7::nat)
           \<lparr>crbResult = None, headers = [], sent = [], nexts = []\<rparr>) = []"
proof -
  have h: "sent (sendCrbResult emptyMiddlewareRef (7::nat)
           \<lparr>crbResult = None, headers = [], sent = [], nexts = []\<rparr>)
         = sent \<lparr>crbResult = None, headers = [], sent = [], nexts = []\<rparr> @ [7]"
    by (simp add: sendCrbResult_def)
  from sendCrbResult_exactly_one
         [of emptyMiddlewareRef "7::nat" "\<lparr>crbResult = None, headers = [], sent = [], nexts = []\<rparr>"] h
  show ?thesis by simp
qed

subsection \<open>Validation\<close>

text \<open>
  C5. If a sequence of route descriptors has an entry whose method is none of the strings
  get, post, put, delete, or whose path is neither a string nor a String object, or whose
  handler is not a function, then \<^verbatim>\<open>validateRoutes\<close> raises \<^verbatim>\<open>"Invalid Route object"\<close>; the
  sequence cut after that entry raises as well, so the entries behind it play no part. And
  when the sequence is the extensions, the before or the after list of \<^verbatim>\<open>buildRoutes\<close>,
  \<^verbatim>\<open>buildRoutes\<close> raises the same value and returns no router: nothing is registered.
\<close>

theorem validateRoutes_rejects_malformed:
  assumes "routes = ys @ r # zs"
    and "method r \<notin> {JString ''get'', JString ''post'', JString ''put'', JString ''delete''}
         \<or> ((\<forall>s. route r \<noteq> JString s) \<and> (\<forall>n s. route r \<noteq> JStringObject n s))
         \<or> (\<forall>c f. func r \<noteq> JFunction c f)"
  shows "validateRoutes routes = Inl (ThrownString ''Invalid Route object'')
       \<and> validateRoutes (ys @ [r]) = Inl (ThrownString ''Invalid Route object'')
       \<and> (routes \<in> {orEmpty (extensions a), orEmpty (before a), orEmpty (after a)}
            \<longrightarrow> buildRoutes a = Inl (ThrownString ''Invalid Route object''))"
proof -
  have bad: "method r \<notin> set allowedMethods
         \<or> \<not> (typeof (route r) = ''string'' \<or> instanceofString (route r))
         \<or> \<not> isFunction (func r)"
    using assms(2) by (auto simp: allowedMethods_def typeof_string_iff instanceofString_iff isFunction_iff)
  have 1: "validateRoutes routes = Inl (ThrownString ''Invalid Route object'')"
    using validateRoutes_malformed [OF _ bad, of routes] assms(1) by simp
  have 2: "validateRoutes (ys @ [r]) = Inl (ThrownString ''Invalid Route object'')"
    using validateRoutes_malformed [OF _ bad, of "ys @ [r]"] by simp
  have 3: "buildRoutes a = Inl (ThrownString ''Invalid Route object'')"
    if "routes \<in> {orEmpty (extensions a), orEmpty (before a), orEmpty (after a)}"
    using that 1 unfolding buildRoutes_cases by auto
  from 1 2 3 show ?thesis by blast
qed

theorem validateRoutes_rejects_malformed_witness:
  "validateRoutes
     [\<lparr>method = JString ''get'', route = JString ''/a'', func = JFunction PlainFunction (UserFunction 0)\<rparr>,
      \<lparr>method = JString ''patch'', route = JString ''/b'', func = JFunction PlainFunction (UserFunction 1)\<rparr>,
      \<lparr>method = JString ''put'', route = JString ''/c'', func = JFunction PlainFunction (UserFunction 2)\<rparr>]
     = Inl (ThrownString ''Invalid Route object'')
   \<and> buildRoutes \<lparr>extensions = Some
     [\<lparr>method = JString ''get'', route = JString ''/a'', func = JFunction PlainFunction (UserFunction 0)\<rparr>,
      \<lparr>method = JString ''patch'', route = JString ''/b'', func = JFunction PlainFunction (UserFunction 1)\<rparr>,
      \<lparr>method = JString ''put'', route = JString ''/c'', func = JFunction PlainFunction (UserFunction 2)\<rparr>],
     before = None, after = None\<rparr>
     = Inl (ThrownString ''Invalid Route object'')"
proof -
  have h1: "[\<lparr>method = JString ''get'', route = JString ''/a'', func = JFunction PlainFunction (UserFunction 0)\<rparr>,
      \<lparr>method = JString ''patch'', route = JString ''/b'', func = JFunction PlainFunction (UserFunction 1)\<rparr>,
      \<lparr>method = JString ''put'', route = JString ''/c'', func = JFunction PlainFunction (UserFunction 2)\<rparr>]
    = [\<lparr>method = JString ''get'', route = JString ''/a'', func = JFunction PlainFunction (UserFunction 0)\<rparr>]
      @ \<lparr>method = JString ''patch'', route = JString ''/b'', func = JFunction PlainFunction (UserFunction 1)\<rparr>
      # [\<lparr>method = JString ''put'', route = JString ''/c'', func = JFunction PlainFunction (UserFunction 2)\<rparr>]"
    by simp
  have h2: "method \<lparr>method = JString ''patch'', route = JString ''/b'', func = JFunction PlainFunction (UserFunction 1)\<rparr>
      \<notin> {JString ''get'', JString ''post'', JString ''put'', JString ''delete''}
    \<or> ((\<forall>s. route \<lparr>method = JString ''patch'', route = JString ''/b'', func = JFunction PlainFunction (UserFunction 1)\<rparr> \<noteq> JString s)
       \<and> (\<forall>n s. route \<lparr>method = JString ''patch'', route = JString ''/b'', func = JFunction PlainFunction (UserFunction 1)\<rparr> \<noteq> JStringObject n s))
    \<or> (\<forall>c f. func \<lparr>method = JString ''patch'', route = JString ''/b'', func = JFunction PlainFunction (UserFunction 1)\<rparr> \<noteq> JFunction c f)"
    by simp
  from validateRoutes_rejects_malformed [OF h1 h2,
         of "\<lparr>extensions = Some
     [\<lparr>method = JString ''get'', route = JString ''/a'', func = JFunction PlainFunction (UserFunction 0)\<rparr>,
      \<lparr>method = JString ''patch'', route = JString ''/b'', func = JFunction PlainFunction (UserFunction 1)\<rparr>,
      \<lparr>method = JString ''put'', route = JString ''/c'', func = JFunction PlainFunction (UserFunction 2)\<rparr>],
     before = None, after = None\<rparr>"]
  show ?thesis by (simp add: orEmpty_def)
qed

text \<open>
  C10. A descriptor of the before or of the after list that fails the structural check
  makes \<^verbatim>\<open>buildRoutes\<close> raise, whatever its method and path are: it need not match a default
  route or an extension.
\<close>

theorem buildRoutes_malformed_middleware_aborts:
  assumes "r \<in> set (orEmpty (before a)) \<union> set (orEmpty (after a))"
    and "method r \<notin> set allowedMethods
         \<or> \<not> (typeof (route r) = ''string'' \<or> instanceofString (route r))
         \<or> \<not> isFunction (func r)"
  shows "buildRoutes a = Inl (ThrownString ''Invalid Route object'')"
proof -
  have "validateRoutes (orEmpty (before a)) = Inl (ThrownString ''Invalid Route object'')
      \<or> validateRoutes (orEmpty (after a)) = Inl (ThrownString ''Invalid Route object'')"
    using assms validateRoutes_malformed by blast
  then show ?thesis unfolding buildRoutes_cases by auto
qed

theorem buildRoutes_malformed_middleware_aborts_witness:
  "\<lparr>method = JString ''patch'', route = JString ''/nowhere'', func = JUndefined\<rparr>
     \<in> set (orEmpty (before \<lparr>extensions = None,
          before = Some [\<lparr>method = JString ''patch'', route = JString ''/nowhere'', func = JUndefined\<rparr>],
          after = None\<rparr>))
   \<and> buildRoutes \<lparr>extensions = None,
          before = Some [\<lparr>method = JString ''patch'', route = JString ''/nowhere'', func = JUndefined\<rparr>],
          after = None\<rparr>
     = Inl (ThrownString ''Invalid Route object'')"
proof -
  have h1: "\<lparr>method = JString ''patch'', route = JString ''/nowhere'', func = JUndefined\<rparr>
     \<in> set (orEmpty (before \<lparr>extensions = None,
          before = Some [\<lparr>method = JString ''patch'', route = JString ''/nowhere'', func = JUndefined\<rparr>],
          after = None\<rparr>))
       \<union> set (orEmpty (after \<lparr>extensions = None,
          before = Some [\<lparr>method = JString ''patch'', route = JString ''/nowhere'', func = JUndefined\<rparr>],
          after = None\<rparr>))"
    by (simp add: orEmpty_def)
  have h2: "method \<lparr>method = JString ''patch'', route = JString ''/nowhere'', func = JUndefined\<rparr>
        \<notin> set allowedMethods
     \<or> \<not> (typeof (route \<lparr>method = JString ''patch'', route = JString ''/nowhere'', func = JUndefined\<rparr>) = ''string''
          \<or> instanceofString (route \<lparr>method = JString ''patch'', route = JString ''/nowhere'', func = JUndefined\<rparr>))
     \<or> \<not> isFunction (func \<lparr>method = JString ''patch'', route = JString ''/nowhere'', func = JUndefined\<rparr>)"
    by (simp add: allowedMethods_def)
  from buildRoutes_malformed_middleware_aborts [OF h1 h2] h1
  show ?thesis by (simp add: orEmpty_def)
qed

text \<open>
  For contrast: a well-formed entry of the before list whose method and route match no
  extension and none of the five default routes is never resolved, and leaving it out
  changes nothing in the result of \<^verbatim>\<open>buildRoutes\<close>.
\<close>

lemma extractMiddleware_unmatched:
  "\<not> (method r = m \<and> route r = p)
     \<Longrightarrow> extractMiddleware (ys @ r # zs) m p = extractMiddleware (ys @ zs) m p"
  by (auto simp: extractMiddleware_def)

lemma unmatched_before_entry_changes_nothing:
  assumes "before a = Some (ys @ r # zs)"
    and "method r \<in> set allowedMethods"
    and "typeof (route r) = ''string'' \<or> instanceofString (route r)"
    and "isFunction (func r)"
    and "\<forall>ex\<in>set (orEmpty (extensions a)). \<not> (method r = method ex \<and> route r = route ex)"
    and "(method r, route r) \<notin>
           {(JString ''get'', JString ''/all''), (JString ''get'', JString ''/single/:id''),
            (JString ''put'', JString ''/:id''), (JString ''post'', JString ''/''),
            (JString ''delete'', JString ''/:id'')}"
  shows "buildRoutes a = buildRoutes (a\<lparr>before := Some (ys @ zs)\<rparr>)"
proof -
  have v: "validateRoutes (ys @ r # zs) = validateRoutes (ys @ zs)"
    using assms(2-4) unfolding validateRoutes_cases by auto
  have e: "map (extensionRoute (ys @ r # zs) aft) (orEmpty (extensions a))
         = map (extensionRoute (ys @ zs) aft) (orEmpty (extensions a))" for aft
    using assms(5) by (auto simp: extensionRoute_def extractMiddleware_unmatched)
  have d: "defaultRoute (ys @ r # zs) aft m p act = defaultRoute (ys @ zs) aft m p act"
    if "(method r, route r) \<noteq> (JString m, JString p)" for aft m p act
    using that by (auto simp: defaultRoute_def extractMiddleware_unmatched)
  have ob: "orEmpty (before a) = ys @ r # zs"
    and ob': "orEmpty (Some (ys @ zs)) = ys @ zs"
    using assms(1) by (simp_all add: orEmpty_def)
  have d1: "defaultRoute (ys @ r # zs) aft ''get'' ''/all'' act
              = defaultRoute (ys @ zs) aft ''get'' ''/all'' act" for aft act
    using assms(6) by (intro d) auto
  have d2: "defaultRoute (ys @ r # zs) aft ''get'' ''/single/:id'' act
              = defaultRoute (ys @ zs) aft ''get'' ''/single/:id'' act" for aft act
    using assms(6) by (intro d) auto
  have d3: "defaultRoute (ys @ r # zs) aft ''put'' ''/:id'' act
              = defaultRoute (ys @ zs) aft ''put'' ''/:id'' act" for aft act
    using assms(6) by (intro d) auto
  have d4: "defaultRoute (ys @ r # zs) aft ''post'' ''/'' act
              = defaultRoute (ys @ zs) aft ''post'' ''/'' act" for aft act
    using assms(6) by (intro d) auto
  have d5: "defaultRoute (ys @ r # zs) aft ''delete'' ''/:id'' act
              = defaultRoute (ys @ zs) aft ''delete'' ''/:id'' act" for aft act
    using assms(6) by (intro d) auto
  show ?thesis
    unfolding buildRoutes_cases by (simp add: ob ob' v e d1 d2 d3 d4 d5)
qed

subsection \<open>The middleware resolver\<close>

text \<open>
  C6. \<^verbatim>\<open>extractMiddleware\<close> returns the handler of the first descriptor whose method and
  route both equal the target (by \<^verbatim>\<open>===\<close>), and \<^verbatim>\<open>emptyMiddleware\<close> when there is none;
  \<^verbatim>\<open>emptyMiddleware\<close> calls \<^verbatim>\<open>next()\<close> once and leaves the response and the request
  untouched; and every chain that \<^verbatim>\<open>buildRoutes\<close> registers has three handlers.
\<close>

theorem extractMiddleware_first_match:
  "(\<forall>ys r zs. routes = ys @ r # zs \<and> method r = m \<and> route r = p
        \<and> (\<forall>r'\<in>set ys. \<not> (method r' = m \<and> route r' = p))
      \<longrightarrow> extractMiddleware routes m p = func r)
   \<and> ((\<forall>r\<in>set routes. \<not> (method r = m \<and> route r = p))
      \<longrightarrow> extractMiddleware routes m p = emptyMiddlewareRef)
   \<and> nexts (emptyMiddleware x) = nexts x @ [None]
   \<and> sent (emptyMiddleware x) = sent x
   \<and> headers (emptyMiddleware x) = headers x
   \<and> crbResult (emptyMiddleware x) = crbResult x
   \<and> (\<forall>router. buildRoutes a = Inr router \<longrightarrow> (\<forall>reg\<in>set router. length (handlers reg) = 3))"
proof -
  have 1: "extractMiddleware routes m p = func r"
    if "routes = ys @ r # zs" "method r = m" "route r = p"
       "\<forall>r'\<in>set ys. \<not> (method r' = m \<and> route r' = p)" for ys r zs
    using that by (simp add: extractMiddleware_find find_first)
  have 2: "extractMiddleware routes m p = emptyMiddlewareRef"
    if "\<forall>r\<in>set routes. \<not> (method r = m \<and> route r = p)"
  proof -
    have "find (\<lambda>r. method r = m \<and> route r = p) routes = None"
      using that by (simp add: find_None_iff)
    then show ?thesis by (simp add: extractMiddleware_find)
  qed
  have 3: "\<forall>reg\<in>set router. length (handlers reg) = 3" if "buildRoutes a = Inr router" for router
    using that unfolding buildRoutes_cases
    by (auto simp: extensionRoute_def defaultRoute_def split: if_splits)
  show ?thesis using 1 2 3 by (simp add: emptyMiddleware_def)
qed


theorem extractMiddleware_first_match_witness:
  "extractMiddleware [\<lparr>method = JString ''get'', route = JString ''/other'', func = JFunction PlainFunction (UserFunction 3)\<rparr>,
      \<lparr>method = JString ''get'', route = JString ''/all'', func = JFunction PlainFunction (UserFunction 2)\<rparr>,
      \<lparr>method = JString ''get'', route = JString ''/all'', func = JFunction PlainFunction (UserFunction 4)\<rparr>] (JString ''get'') (JString ''/all'')
     = JFunction PlainFunction (UserFunction 2)
   \<and> extractMiddleware [\<lparr>method = JString ''get'', route = JString ''/other'', func = JFunction PlainFunction (UserFunction 3)\<rparr>] (JString ''get'') (JString ''/all'') = emptyMiddlewareRef
   \<and> emptyMiddleware (\<lparr>crbResult = None, headers = [], sent = [], nexts = []\<rparr> :: nat exchange)
     = \<lparr>crbResult = None, headers = [], sent = [], nexts = [None]\<rparr>
   \<and> buildRoutes \<lparr>extensions = Some [\<lparr>method = JString ''get'', route = JString ''/all'', func = JFunction PlainFunction (UserFunction 1)\<rparr>], before = Some [\<lparr>method = JString ''get'', route = JString ''/all'', func = JFunction PlainFunction (UserFunction 2)\<rparr>], after = None\<rparr> = Inr
     [\<lparr>verb = JString ''get'', path = JString ''/all'',
        handlers = [JFunction PlainFunction (UserFunction 2), JFunction PlainFunction (UserFunction 1), emptyMiddlewareRef]\<rparr>,
      \<lparr>verb = JString ''get'', path = JString ''/all'',
        handlers = [JFunction PlainFunction (UserFunction 2), JFunction PlainFunction GetAllAction, emptyMiddlewareRef]\<rparr>,
      \<lparr>verb = JString ''get'', path = JString ''/single/:id'',
        handlers = [emptyMiddlewareRef, JFunction PlainFunction GetSingleAction, emptyMiddlewareRef]\<rparr>,
      \<lparr>verb = JString ''put'', path = JString ''/:id'',
        handlers = [emptyMiddlewareRef, JFunction PlainFunction PutAction, emptyMiddlewareRef]\<rparr>,
      \<lparr>verb = JString ''post'', path = JString ''/'',
        handlers = [emptyMiddlewareRef, JFunction PlainFunction PostAction, emptyMiddlewareRef]\<rparr>,
      \<lparr>verb = JString ''delete'', path = JString ''/:id'',
        handlers = [emptyMiddlewareRef, JFunction PlainFunction DeleteAction, emptyMiddlewareRef]\<rparr>]"
proof -
  have b: "buildRoutes \<lparr>extensions = Some [\<lparr>method = JString ''get'', route = JString ''/all'', func = JFunction PlainFunction (UserFunction 1)\<rparr>], before = Some [\<lparr>method = JString ''get'', route = JString ''/all'', func = JFunction PlainFunction (UserFunction 2)\<rparr>], after = None\<rparr> = Inr
     [\<lparr>verb = JString ''get'', path = JString ''/all'',
        handlers = [JFunction PlainFunction (UserFunction 2), JFunction PlainFunction (UserFunction 1), emptyMiddlewareRef]\<rparr>,
      \<lparr>verb = JString ''get'', path = JString ''/all'',
        handlers = [JFunction PlainFunction (UserFunction 2), JFunction PlainFunction GetAllAction, emptyMiddlewareRef]\<rparr>,
      \<lparr>verb = JString ''get'', path = JString ''/single/:id'',
        handlers = [emptyMiddlewareRef, JFunction PlainFunction GetSingleAction, emptyMiddlewareRef]\<rparr>,
      \<lparr>verb = JString ''put'', path = JString ''/:id'',
        handlers = [emptyMiddlewareRef, JFunction PlainFunction PutAction, emptyMiddlewareRef]\<rparr>,
      \<lparr>verb = JString ''post'', path = JString ''/'',
        handlers = [emptyMiddlewareRef, JFunction PlainFunction PostAction, emptyMiddlewareRef]\<rparr>,
      \<lparr>verb = JString ''delete'', path = JString ''/:id'',
        handlers = [emptyMiddlewareRef, JFunction PlainFunction DeleteAction, emptyMiddlewareRef]\<rparr>]"
    by (simp add: buildRoutes_def orEmpty_def allowedMethods_def isFunction_def
          extensionRoute_def defaultRoute_def extractMiddleware_def)
  have h1: "[\<lparr>method = JString ''get'', route = JString ''/other'', func = JFunction PlainFunction (UserFunction 3)\<rparr>,
      \<lparr>method = JString ''get'', route = JString ''/all'', func = JFunction PlainFunction (UserFunction 2)\<rparr>,
      \<lparr>method = JString ''get'', route = JString ''/all'', func = JFunction PlainFunction (UserFunction 4)\<rparr>]
    = [\<lparr>method = JString ''get'', route = JString ''/other'', func = JFunction PlainFunction (UserFunction 3)\<rparr>]
      @ \<lparr>method = JString ''get'', route = JString ''/all'', func = JFunction PlainFunction (UserFunction 2)\<rparr>
      # [\<lparr>method = JString ''get'', route = JString ''/all'', func = JFunction PlainFunction (UserFunction 4)\<rparr>]
    \<and> method \<lparr>method = JString ''get'', route = JString ''/all'', func = JFunction PlainFunction (UserFunction 2)\<rparr> = JString ''get''
    \<and> route \<lparr>method = JString ''get'', route = JString ''/all'', func = JFunction PlainFunction (UserFunction 2)\<rparr> = JString ''/all''
    \<and> (\<forall>r'\<in>set [\<lparr>method = JString ''get'', route = JString ''/other'', func = JFunction PlainFunction (UserFunction 3)\<rparr>]. \<not> (method r' = JString ''get'' \<and> route r' = JString ''/all''))"
    by simp
  have h2: "\<forall>r\<in>set [\<lparr>method = JString ''get'', route = JString ''/other'', func = JFunction PlainFunction (UserFunction 3)\<rparr>]. \<not> (method r = JString ''get'' \<and> route r = JString ''/all'')"
    by simp
  have t1: "extractMiddleware [\<lparr>method = JString ''get'', route = JString ''/other'', func = JFunction PlainFunction (UserFunction 3)\<rparr>,
      \<lparr>method = JString ''get'', route = JString ''/all'', func = JFunction PlainFunction (UserFunction 2)\<rparr>,
      \<lparr>method = JString ''get'', route = JString ''/all'', func = JFunction PlainFunction (UserFunction 4)\<rparr>] (JString ''get'') (JString ''/all'')
     = func \<lparr>method = JString ''get'', route = JString ''/all'', func = JFunction PlainFunction (UserFunction 2)\<rparr>"
    using extractMiddleware_first_match [THEN conjunct1, rule_format, OF h1] .
  have t2: "extractMiddleware [\<lparr>method = JString ''get'', route = JString ''/other'', func = JFunction PlainFunction (UserFunction 3)\<rparr>] (JString ''get'') (JString ''/all'') = emptyMiddlewareRef"
    using extractMiddleware_first_match [THEN conjunct2, THEN conjunct1, THEN mp, OF h2] .
  show ?thesis using t1 t2 b by (simp add: emptyMiddleware_def)
qed

subsection \<open>Registration\<close>

text \<open>
  C7. When \<^verbatim>\<open>buildRoutes\<close> returns a router, its registrations are the extensions in their
  order, each with the chain before-handler, the extension's own handler, after-handler
  (both resolved with the extension's method and route), followed by the five default
  routes. So when an extension is declared for get and /all, the first registration of
  the router with that method and path (the one a router serving requests from its first
  matching registration reaches) carries the handler of the first such extension, not the
  built-in list action.
\<close>

theorem buildRoutes_extensions_first:
  assumes "buildRoutes a = Inr router"
  shows "length router = length (orEmpty (extensions a)) + 5
    \<and> (\<forall>i < length (orEmpty (extensions a)).
          verb (router ! i) = method (orEmpty (extensions a) ! i)
        \<and> path (router ! i) = route (orEmpty (extensions a) ! i)
        \<and> handlers (router ! i) =
            [extractMiddleware (orEmpty (before a))
               (method (orEmpty (extensions a) ! i)) (route (orEmpty (extensions a) ! i)),
             func (orEmpty (extensions a) ! i),
             extractMiddleware (orEmpty (after a))
               (method (orEmpty (extensions a) ! i)) (route (orEmpty (extensions a) ! i))])
    \<and> map (\<lambda>reg. (verb reg, path reg, handlers reg ! 1))
          (drop (length (orEmpty (extensions a))) router) =
        [(JString ''get'', JString ''/all'', JFunction PlainFunction GetAllAction),
         (JString ''get'', JString ''/single/:id'', JFunction PlainFunction GetSingleAction),
         (JString ''put'', JString ''/:id'', JFunction PlainFunction PutAction),
         (JString ''post'', JString ''/'', JFunction PlainFunction PostAction),
         (JString ''delete'', JString ''/:id'', JFunction PlainFunction DeleteAction)]
    \<and> (\<forall>ex. find (\<lambda>ex. method ex = JString ''get'' \<and> route ex = JString ''/all'')
               (orEmpty (extensions a)) = Some ex
          \<longrightarrow> find (\<lambda>reg. verb reg = JString ''get'' \<and> path reg = JString ''/all'') router =
              Some \<lparr>verb = JString ''get'', path = JString ''/all'',
                    handlers = [extractMiddleware (orEmpty (before a)) (JString ''get'') (JString ''/all''),
                                func ex,
                                extractMiddleware (orEmpty (after a)) (JString ''get'') (JString ''/all'')]\<rparr>)"
proof -
  define exts where "exts = orEmpty (extensions a)"
  define bef where "bef = orEmpty (before a)"
  define aft where "aft = orEmpty (after a)"
  have router: "router = map (extensionRoute bef aft) exts @
                 [defaultRoute bef aft ''get'' ''/all'' GetAllAction,
                  defaultRoute bef aft ''get'' ''/single/:id'' GetSingleAction,
                  defaultRoute bef aft ''put'' ''/:id'' PutAction,
                  defaultRoute bef aft ''post'' ''/'' PostAction,
                  defaultRoute bef aft ''delete'' ''/:id'' DeleteAction]"
    using assms unfolding buildRoutes_cases exts_def bef_def aft_def
    by (simp split: if_splits)
  have 1: "length router = length exts + 5"
    by (simp add: router)
  have 2: "verb (router ! i) = method (exts ! i) \<and> path (router ! i) = route (exts ! i)
        \<and> handlers (router ! i) =
            [extractMiddleware bef (method (exts ! i)) (route (exts ! i)), func (exts ! i),
             extractMiddleware aft (method (exts ! i)) (route (exts ! i))]"
    if "i < length exts" for i
    using that by (simp add: router nth_append extensionRoute_def)
  have 3: "map (\<lambda>reg. (verb reg, path reg, handlers reg ! 1)) (drop (length exts) router) =
        [(JString ''get'', JString ''/all'', JFunction PlainFunction GetAllAction),
         (JString ''get'', JString ''/single/:id'', JFunction PlainFunction GetSingleAction),
         (JString ''put'', JString ''/:id'', JFunction PlainFunction PutAction),
         (JString ''post'', JString ''/'', JFunction PlainFunction PostAction),
         (JString ''delete'', JString ''/:id'', JFunction PlainFunction DeleteAction)]"
    by (simp add: router defaultRoute_def)
  have 4: "find (\<lambda>reg. verb reg = JString ''get'' \<and> path reg = JString ''/all'') router =
              Some \<lparr>verb = JString ''get'', path = JString ''/all'',
                    handlers = [extractMiddleware bef (JString ''get'') (JString ''/all''), func ex,
                                extractMiddleware aft (JString ''get'') (JString ''/all'')]\<rparr>"
    if f: "find (\<lambda>ex. method ex = JString ''get'' \<and> route ex = JString ''/all'') exts = Some ex" for ex
  proof -
    have m: "method ex = JString ''get'' \<and> route ex = JString ''/all''"
      using find_P [OF f] .
    have "find (\<lambda>reg. verb reg = JString ''get'' \<and> path reg = JString ''/all'')
            (map (extensionRoute bef aft) exts) = Some (extensionRoute bef aft ex)"
      using f by (simp add: find_map_comp extensionRoute_def)
    then show ?thesis
      using m by (simp add: router find_append_cases extensionRoute_def)
  qed
  show ?thesis
    using 1 2 3 4 unfolding exts_def bef_def aft_def by blast
qed

theorem buildRoutes_extensions_first_witness:
  "buildRoutes \<lparr>extensions = Some [\<lparr>method = JString ''get'', route = JString ''/all'', func = JFunction PlainFunction (UserFunction 1)\<rparr>], before = Some [\<lparr>method = JString ''get'', route = JString ''/all'', func = JFunction PlainFunction (UserFunction 2)\<rparr>], after = None\<rparr> = Inr
     [\<lparr>verb = JString ''get'', path = JString ''/all'',
        handlers = [JFunction PlainFunction (UserFunction 2), JFunction PlainFunction (UserFunction 1), emptyMiddlewareRef]\<rparr>,
      \<lparr>verb = JString ''get'', path = JString ''/all'',
        handlers = [JFunction PlainFunction (UserFunction 2), JFunction PlainFunction GetAllAction, emptyMiddlewareRef]\<rparr>,
      \<lparr>verb = JString ''get'', path = JString ''/single/:id'',
        handlers = [emptyMiddlewareRef, JFunction PlainFunction GetSingleAction, emptyMiddlewareRef]\<rparr>,
      \<lparr>verb = JString ''put'', path = JString ''/:id'',
        handlers = [emptyMiddlewareRef, JFunction PlainFunction PutAction, emptyMiddlewareRef]\<rparr>,
      \<lparr>verb = JString ''post'', path = JString ''/'',
        handlers = [emptyMiddlewareRef, JFunction PlainFunction PostAction, emptyMiddlewareRef]\<rparr>,
      \<lparr>verb = JString ''delete'', path = JString ''/:id'',
        handlers = [emptyMiddlewareRef, JFunction PlainFunction DeleteAction, emptyMiddlewareRef]\<rparr>]
   \<and> find (\<lambda>reg. verb reg = JString ''get'' \<and> path reg = JString ''/all'')
     [\<lparr>verb = JString ''get'', path = JString ''/all'',
        handlers = [JFunction PlainFunction (UserFunction 2), JFunction PlainFunction (UserFunction 1), emptyMiddlewareRef]\<rparr>,
      \<lparr>verb = JString ''get'', path = JString ''/all'',
        handlers = [JFunction PlainFunction (UserFunction 2), JFunction PlainFunction GetAllAction, emptyMiddlewareRef]\<rparr>,
      \<lparr>verb = JString ''get'', path = JString ''/single/:id'',
        handlers = [emptyMiddlewareRef, JFunction PlainFunction GetSingleAction, emptyMiddlewareRef]\<rparr>,
      \<lparr>verb = JString ''put'', path = JString ''/:id'',
        handlers = [emptyMiddlewareRef, JFunction PlainFunction PutAction, emptyMiddlewareRef]\<rparr>,
      \<lparr>verb = JString ''post'', path = JString ''/'',
        handlers = [emptyMiddlewareRef, JFunction PlainFunction PostAction, emptyMiddlewareRef]\<rparr>,
      \<lparr>verb = JString ''delete'', path = JString ''/:id'',
        handlers = [emptyMiddlewareRef, JFunction PlainFunction DeleteAction, emptyMiddlewareRef]\<rparr>]
     = Some \<lparr>verb = JString ''get'', path = JString ''/all'',
        handlers = [JFunction PlainFunction (UserFunction 2), JFunction PlainFunction (UserFunction 1), emptyMiddlewareRef]\<rparr>"
proof -
  have b: "buildRoutes \<lparr>extensions = Some [\<lparr>method = JString ''get'', route = JString ''/all'', func = JFunction PlainFunction (UserFunction 1)\<rparr>], before = Some [\<lparr>method = JString ''get'', route = JString ''/all'', func = JFunction PlainFunction (UserFunction 2)\<rparr>], after = None\<rparr> = Inr
     [\<lparr>verb = JString ''get'', path = JString ''/all'',
        handlers = [JFunction PlainFunction (UserFunction 2), JFunction PlainFunction (UserFunction 1), emptyMiddlewareRef]\<rparr>,
      \<lparr>verb = JString ''get'', path = JString ''/all'',
        handlers = [JFunction PlainFunction (UserFunction 2), JFunction PlainFunction GetAllAction, emptyMiddlewareRef]\<rparr>,
      \<lparr>verb = JString ''get'', path = JString ''/single/:id'',
        handlers = [emptyMiddlewareRef, JFunction PlainFunction GetSingleAction, emptyMiddlewareRef]\<rparr>,
      \<lparr>verb = JString ''put'', path = JString ''/:id'',
        handlers = [emptyMiddlewareRef, JFunction PlainFunction PutAction, emptyMiddlewareRef]\<rparr>,
      \<lparr>verb = JString ''post'', path = JString ''/'',
        handlers = [emptyMiddlewareRef, JFunction PlainFunction PostAction, emptyMiddlewareRef]\<rparr>,
      \<lparr>verb = JString ''delete'', path = JString ''/:id'',
        handlers = [emptyMiddlewareRef, JFunction PlainFunction DeleteAction, emptyMiddlewareRef]\<rparr>]"
    by (simp add: buildRoutes_def orEmpty_def allowedMethods_def isFunction_def
          extensionRoute_def defaultRoute_def extractMiddleware_def)
  have f: "find (\<lambda>ex. method ex = JString ''get'' \<and> route ex = JString ''/all'')
      (orEmpty (extensions \<lparr>extensions = Some [\<lparr>method = JString ''get'', route = JString ''/all'', func = JFunction PlainFunction (UserFunction 1)\<rparr>], before = Some [\<lparr>method = JString ''get'', route = JString ''/all'', func = JFunction PlainFunction (UserFunction 2)\<rparr>], after = None\<rparr>))
    = Some \<lparr>method = JString ''get'', route = JString ''/all'', func = JFunction PlainFunction (UserFunction 1)\<rparr>"
    by (simp add: orEmpty_def)
  have "find (\<lambda>reg. verb reg = JString ''get'' \<and> path reg = JString ''/all'')
     [\<lparr>verb = JString ''get'', path = JString ''/all'',
        handlers = [JFunction PlainFunction (UserFunction 2), JFunction PlainFunction (UserFunction 1), emptyMiddlewareRef]\<rparr>,
      \<lparr>verb = JString ''get'', path = JString ''/all'',
        handlers = [JFunction PlainFunction (UserFunction 2), JFunction PlainFunction GetAllAction, emptyMiddlewareRef]\<rparr>,
      \<lparr>verb = JString ''get'', path = JString ''/single/:id'',
        handlers = [emptyMiddlewareRef, JFunction PlainFunction GetSingleAction, emptyMiddlewareRef]\<rparr>,
      \<lparr>verb = JString ''put'', path = JString ''/:id'',
        handlers = [emptyMiddlewareRef, JFunction PlainFunction PutAction, emptyMiddlewareRef]\<rparr>,
      \<lparr>verb = JString ''post'', path = JString ''/'',
        handlers = [emptyMiddlewareRef, JFunction PlainFunction PostAction, emptyMiddlewareRef]\<rparr>,
      \<lparr>verb = JString ''delete'', path = JString ''/:id'',
        handlers = [emptyMiddlewareRef, JFunction PlainFunction DeleteAction, emptyMiddlewareRef]\<rparr>]
     = Some \<lparr>verb = JString ''get'', path = JString ''/all'',
          handlers = [extractMiddleware (orEmpty (before \<lparr>extensions = Some [\<lparr>method = JString ''get'', route = JString ''/all'', func = JFunction PlainFunction (UserFunction 1)\<rparr>], before = Some [\<lparr>method = JString ''get'', route = JString ''/all'', func = JFunction PlainFunction (UserFunction 2)\<rparr>], after = None\<rparr>)) (JString ''get'') (JString ''/all''),
                      func \<lparr>method = JString ''get'', route = JString ''/all'', func = JFunction PlainFunction (UserFunction 1)\<rparr>,
                      extractMiddleware (orEmpty (after \<lparr>extensions = Some [\<lparr>method = JString ''get'', route = JString ''/all'', func = JFunction PlainFunction (UserFunction 1)\<rparr>], before = Some [\<lparr>method = JString ''get'', route = JString ''/all'', func = JFunction PlainFunction (UserFunction 2)\<rparr>], after = None\<rparr>)) (JString ''get'') (JString ''/all'')]\<rparr>"
    using buildRoutes_extensions_first [OF b, THEN conjunct2, THEN conjunct2, THEN conjunct2,
            rule_format, OF f] .
  then show ?thesis using b by (simp add: orEmpty_def extractMiddleware_def)
qed

subsection \<open>The conversion to a double: auxiliary facts\<close>

lemma pow2_powi: "pow2 k = 2 powi k"
  by (simp add: pow2_def power_int_def inverse_eq_divide power_one_over)

lemma pow2_pos: "0 < pow2 k"
  by (simp add: pow2_def)

lemma pow2_add: "pow2 (i + j) = pow2 i * pow2 j"
  by (simp add: pow2_powi power_int_add)

lemma pow2_nat: "0 \<le> k \<Longrightarrow> pow2 k = 2 ^ nat k"
  by (simp add: pow2_def)

lemma pow2_mono: "i \<le> j \<Longrightarrow> pow2 i \<le> pow2 j"
proof -
  assume "i \<le> j"
  then have "pow2 j = pow2 i * 2 ^ nat (j - i)"
    using pow2_add [of i "j - i"] by (simp add: pow2_nat)
  moreover have "(1::rat) \<le> 2 ^ nat (j - i)" by simp
  ultimately show ?thesis
    using pow2_pos [of i] by (simp add: mult_le_cancel_left1)
qed

lemma pow2_strict_mono: "i < j \<Longrightarrow> pow2 i < pow2 j"
proof -
  assume "i < j"
  then have "pow2 (i + 1) \<le> pow2 j" by (intro pow2_mono) simp
  moreover have "pow2 (i + 1) = pow2 i * 2"
    using pow2_add [of i 1] by (simp add: pow2_nat)
  then have "pow2 i < pow2 (i + 1)"
    using pow2_pos [of i] by simp
  ultimately show ?thesis by simp
qed

lemma floorLog2_bounds:
  assumes "0 < a"
  shows "pow2 (floorLog2 a) \<le> a \<and> a < pow2 (floorLog2 a + 1)"
proof -
  obtain p q where pq: "quotient_of a = (p, q)" by (cases "quotient_of a")
  have q: "0 < q" using pq by (rule quotient_of_denom_pos)
  have a: "a = of_int p / of_int q" using pq by (rule quotient_of_div)
  have p: "0 < p" using assms q unfolding a by (simp add: zero_less_divide_iff)
  let ?bp = "bitlen p" and ?bq = "bitlen q"
  have bp1: "1 \<le> ?bp" and bq1: "1 \<le> ?bq"
    using p q by (simp_all add: bitlen_alt_def)
  have "2 ^ nat (?bp - 1) \<le> p" "p < 2 ^ nat ?bp" "2 ^ nat (?bq - 1) \<le> q" "q < 2 ^ nat ?bq"
    using bitlen_bounds [OF p] bitlen_bounds [OF q] by simp_all
  then have "(of_int (2 ^ nat (?bp - 1)) :: rat) \<le> of_int p" "(of_int p :: rat) < of_int (2 ^ nat ?bp)"
    "(of_int (2 ^ nat (?bq - 1)) :: rat) \<le> of_int q" "(of_int q :: rat) < of_int (2 ^ nat ?bq)"
    by (simp_all only: of_int_le_iff of_int_less_iff)
  then have P: "pow2 (?bp - 1) \<le> of_int p" "(of_int p :: rat) < pow2 ?bp"
    and Q: "pow2 (?bq - 1) \<le> of_int q" "(of_int q :: rat) < pow2 ?bq"
    using bp1 bq1 by (simp_all add: pow2_nat)
  have qpos: "(0::rat) < of_int q" using q by simp
  have upper: "a < pow2 (?bp - ?bq + 1)"
  proof -
    have "a * of_int q = of_int p" using qpos by (simp add: a)
    also have "\<dots> < pow2 ?bp" by (rule P(2))
    also have "\<dots> = pow2 (?bp - ?bq + 1) * pow2 (?bq - 1)"
      using pow2_add [of "?bp - ?bq + 1" "?bq - 1"] by simp
    also have "\<dots> \<le> pow2 (?bp - ?bq + 1) * of_int q"
      using Q(1) pow2_pos [of "?bp - ?bq + 1"] by (simp add: mult_le_cancel_left_pos)
    finally show ?thesis using qpos by (simp add: mult_less_cancel_right_pos)
  qed
  have lower: "pow2 (?bp - ?bq - 1) < a"
  proof -
    have "pow2 (?bp - ?bq - 1) * of_int q < pow2 (?bp - ?bq - 1) * pow2 ?bq"
      using Q(2) pow2_pos [of "?bp - ?bq - 1"] by (simp add: mult_less_cancel_left_pos)
    also have "\<dots> = pow2 (?bp - 1)"
      using pow2_add [of "?bp - ?bq - 1" "?bq"] by simp
    also have "\<dots> \<le> of_int p" by (rule P(1))
    also have "\<dots> = a * of_int q" using qpos by (simp add: a)
    finally show ?thesis using qpos by (simp add: mult_less_cancel_right_pos)
  qed
  show ?thesis
  proof (cases "pow2 (?bp - ?bq) \<le> a")
    case True
    then show ?thesis using upper by (simp add: floorLog2_def pq)
  next
    case False
    then have "floorLog2 a = ?bp - ?bq - 1" by (simp add: floorLog2_def pq)
    then show ?thesis using lower False by simp
  qed
qed

lemma floorLog2_unique:
  assumes "pow2 k \<le> a" and "a < pow2 (k + 1)"
  shows "floorLog2 a = k"
proof -
  have "0 < a" using assms(1) pow2_pos [of k] by simp
  note b = floorLog2_bounds [OF this]
  have "\<not> floorLog2 a < k"
  proof
    assume "floorLog2 a < k"
    then have "pow2 (floorLog2 a + 1) \<le> pow2 k" by (intro pow2_mono) simp
    then show False using b assms(1) by simp
  qed
  moreover have "\<not> k < floorLog2 a"
  proof
    assume "k < floorLog2 a"
    then have "pow2 (k + 1) \<le> pow2 (floorLog2 a)" by (intro pow2_mono) simp
    then show False using b assms(2) by simp
  qed
  ultimately show ?thesis by simp
qed

lemma roundHalfEven_of_int: "roundHalfEven (of_int z) = z"
  by (simp add: roundHalfEven_def)

lemma toDouble_of_nat:
  assumes "0 < n" and "n < 2 ^ 53"
  shows "toDouble (of_nat n) = Finite (of_nat n)"
proof -
  let ?a = "of_nat n :: rat" and ?k = "floorLog2 (of_nat n)"
  have apos: "0 < ?a" using assms(1) by simp
  note b = floorLog2_bounds [OF apos]
  have k0: "0 \<le> ?k"
  proof (rule ccontr)
    assume "\<not> 0 \<le> ?k"
    then have "pow2 (?k + 1) \<le> pow2 0" by (intro pow2_mono) simp
    then have "?a < 1" using b by (simp add: pow2_def)
    then show False using assms(1) by simp
  qed
  have k52: "?k \<le> 52"
  proof (rule ccontr)
    assume "\<not> ?k \<le> 52"
    then have "pow2 53 \<le> pow2 ?k" by (intro pow2_mono) simp
    then have "(2::rat) ^ 53 \<le> ?a" using b by (simp add: pow2_def)
    moreover have "?a < of_nat (2 ^ 53)" using assms(2) by (simp only: of_nat_less_iff)
    ultimately show False by simp
  qed
  have e: "max (?k - 52) (- 1074) = ?k - 52" using k0 by simp
  have "pow2 (?k - 52) * 2 ^ nat (52 - ?k) = 1"
    using pow2_add [of "?k - 52" "52 - ?k"] k52 by (simp add: pow2_nat pow2_def)
  then have inv: "1 / pow2 (?k - 52) = 2 ^ nat (52 - ?k)"
    using pow2_pos [of "?k - 52"] by (simp add: field_simps)
  have "?a / pow2 (?k - 52) = ?a * (1 / pow2 (?k - 52))" by simp
  then have q: "?a / pow2 (?k - 52) = of_int (int n * 2 ^ nat (52 - ?k))"
    by (simp only: inv) simp
  have v: "of_int (roundHalfEven (?a / pow2 (?k - 52))) * pow2 (?k - 52) = ?a"
    unfolding q roundHalfEven_of_int using q pow2_pos [of "?k - 52"] by (simp add: field_simps)
  have "?a < pow2 1024"
  proof -
    have "?a < pow2 (?k + 1)" using b by simp
    also have "\<dots> \<le> pow2 1024" using k52 by (intro pow2_mono) simp
    finally show ?thesis .
  qed
  then show ?thesis
    using apos by (simp add: toDouble_def Let_def e v del: of_nat_less_iff)
qed

lemma roundHalfEven_ge: "of_int z \<le> x \<Longrightarrow> z \<le> roundHalfEven x"
proof -
  assume "of_int z \<le> x"
  then have "z \<le> \<lfloor>x\<rfloor>" by (simp add: le_floor_iff)
  then show ?thesis by (simp add: roundHalfEven_def Let_def)
qed

lemma toDouble_at:
  assumes "pow2 k \<le> a" and "a < pow2 (k + 1)"
  shows "toDouble a =
     (if pow2 1024 \<le> of_int (roundHalfEven (a / pow2 (max (k - 52) (- 1074)))) * pow2 (max (k - 52) (- 1074))
      then PosInfinity
      else Finite (of_int (roundHalfEven (a / pow2 (max (k - 52) (- 1074)))) * pow2 (max (k - 52) (- 1074))))"
proof -
  have "0 < a" using assms(1) pow2_pos [of k] by simp
  then show ?thesis
    by (simp add: toDouble_def Let_def floorLog2_unique [OF assms])
qed

lemma toDouble_overflow:
  assumes "pow2 1024 \<le> a"
  shows "toDouble a = PosInfinity"
proof -
  have apos: "0 < a" using assms pow2_pos [of 1024] by simp
  let ?k = "floorLog2 a"
  note b = floorLog2_bounds [OF apos]
  have k: "1024 \<le> ?k"
  proof (rule ccontr)
    assume "\<not> 1024 \<le> ?k"
    then have "pow2 (?k + 1) \<le> pow2 1024" by (intro pow2_mono) simp
    then show False using b assms by simp
  qed
  then have e: "max (?k - 52) (- 1074) = ?k - 52" by simp
  have p: "pow2 ?k = pow2 52 * pow2 (?k - 52)"
    using pow2_add [of 52 "?k - 52"] by simp
  have "of_int (2 ^ 52) \<le> a / pow2 (?k - 52)"
    using b pow2_pos [of "?k - 52"] by (simp add: p pow2_nat pos_le_divide_eq)
  then have "2 ^ 52 \<le> roundHalfEven (a / pow2 (?k - 52))"
    by (rule roundHalfEven_ge)
  then have "(of_int (2 ^ 52) :: rat) \<le> of_int (roundHalfEven (a / pow2 (?k - 52)))"
    by (simp only: of_int_le_iff)
  then have "pow2 52 * pow2 (?k - 52) \<le> of_int (roundHalfEven (a / pow2 (?k - 52))) * pow2 (?k - 52)"
    using pow2_pos [of "?k - 52"] by (simp add: pow2_nat)
  moreover have "pow2 1024 \<le> pow2 ?k" using k by (rule pow2_mono)
  ultimately have "pow2 1024 \<le> of_int (roundHalfEven (a / pow2 (?k - 52))) * pow2 (?k - 52)"
    by (simp add: p)
  then show ?thesis
    using apos by (simp add: toDouble_def Let_def e)
qed

lemma toDouble_numeral:
  "(numeral w :: nat) < 2 ^ 53 \<Longrightarrow> toDouble (numeral w) = Finite (numeral w)"
  using toDouble_of_nat [of "numeral w"] by simp

lemma toDouble_1: "toDouble 1 = Finite 1"
  using toDouble_of_nat [of 1] by simp

lemma StringToNumber_blank:
  assumes "\<forall>c\<in>set s. isStrWhiteSpaceChar c"
  shows "StringToNumber s = Finite 0"
proof -
  have d: "dropWhile isStrWhiteSpaceChar s = []"
    using assms by (simp add: dropWhile_eq_Nil_conv)
  have "trim s = []" unfolding trim_def d by simp
  then show ?thesis by (simp add: StringToNumber_def)
qed

lemmas StringToNumber_eval =
  StringToNumber_def trim_def isStrWhiteSpaceChar_def unsignedDecimal_def mantissa_def
  exponent_def parseDigits_def digitVal_def scale10_def radixLiteral_def

lemma StringToNumber_1: "StringToNumber ''1'' = Finite (of_nat 1)"
  by (simp add: StringToNumber_eval toDouble_1)

lemma StringToNumber_2: "StringToNumber ''2'' = Finite (of_nat 2)"
  by (simp add: StringToNumber_eval toDouble_numeral)

lemma StringToNumber_abc: "StringToNumber ''abc'' = NaN"
  by (simp add: StringToNumber_eval)

lemma StringToNumber_nbsp_12: "StringToNumber [CHR 0xA0, CHR ''1'', CHR ''2''] = Finite 12"
  by (simp add: StringToNumber_eval toDouble_numeral)

lemma StringToNumber_1e309: "StringToNumber ''1e309'' = PosInfinity"
proof -
  have "pow2 1024 \<le> 10 ^ 309" by (simp add: pow2_def)
  then have "toDouble (10 ^ 309) = PosInfinity" by (rule toDouble_overflow)
  then show ?thesis by (simp add: StringToNumber_eval)
qed

lemma StringToNumber_2_53_plus_1: "StringToNumber ''9007199254740993'' = Finite 9007199254740992"
proof -
  have "pow2 53 \<le> 9007199254740993" "(9007199254740993 :: rat) < pow2 (53 + 1)"
    by (simp_all add: pow2_def)
  moreover have "\<lfloor>(9007199254740993 :: rat) / 2\<rfloor> = 4503599627370496"
    by (rule floor_unique) simp_all
  then have "roundHalfEven (9007199254740993 / 2) = 4503599627370496"
    by (simp add: roundHalfEven_def)
  ultimately have "toDouble 9007199254740993 = Finite 9007199254740992"
    using toDouble_at [of 53 9007199254740993] by (simp add: pow2_def)
  then show ?thesis by (simp add: StringToNumber_eval)
qed

subsection \<open>The list action: auxiliary facts\<close>

lemma slice_filter_nths:
  "map fst (filter (\<lambda>(d, i). P i) (zip data [0..<length data])) = nths data {i. P i}"
  by (simp add: nths_def case_prod_unfold)

lemma nths_interval:
  assumes "s \<le> e"
  shows "nths data {i. s \<le> i \<and> i \<le> e} = take (e - s + 1) (drop s data)"
proof -
  have "(+) s ` {..<e - s + 1} = {i. s \<le> i \<and> i \<le> e}"
  proof (intro set_eqI iffI)
    fix i assume "i \<in> (+) s ` {..<e - s + 1}"
    then show "i \<in> {i. s \<le> i \<and> i \<le> e}" using assms by auto
  next
    fix i assume "i \<in> {i. s \<le> i \<and> i \<le> e}"
    then have "i = s + (i - s)" "i - s < e - s + 1" by auto
    then show "i \<in> (+) s ` {..<e - s + 1}" by blast
  qed
  then have "nths data {i. s \<le> i \<and> i \<le> e} = nths (drop s data) {..<e - s + 1}"
    using nths_drop [of s data "{..<e - s + 1}"] by simp
  also have "\<dots> = take (e - s + 1) (drop s data)"
    by (rule nths_upt_eq_take)
  finally show ?thesis .
qed

lemma indexGe_nat: "StringToNumber v = Finite (of_nat s) \<Longrightarrow> indexGe i v = (s \<le> i)"
  by (simp add: indexGe_def)

lemma indexLe_nat: "StringToNumber v = Finite (of_nat e) \<Longrightarrow> indexLe i v = (i \<le> e)"
  by (simp add: indexLe_def)

lemma slice_both:
  assumes "map_of q ''_start'' = Some ss" "map_of q ''_end'' = Some es"
    and "StringToNumber ss = Finite (of_nat s)" "StringToNumber es = Finite (of_nat e)" "s \<le> e"
  shows "slice q data = take (e - s + 1) (drop s data)"
proof -
  have "slice q data = map fst (filter (\<lambda>(d, i). s \<le> i \<and> i \<le> e) (zip data [0..<length data]))"
    using assms(1-4) by (simp add: slice_def indexGe_nat indexLe_nat)
  also have "\<dots> = nths data {i. s \<le> i \<and> i \<le> e}"
    by (rule slice_filter_nths)
  also have "\<dots> = take (e - s + 1) (drop s data)"
    using assms(5) by (rule nths_interval)
  finally show ?thesis .
qed

lemma slice_absent:
  "map_of q ''_start'' = None \<or> map_of q ''_end'' = None \<Longrightarrow> slice q data = data"
  by (auto simp: slice_def split: option.splits)

lemma slice_NaN:
  assumes "map_of q ''_start'' = Some ss" "map_of q ''_end'' = Some es"
    and "isNaN ss \<or> isNaN es"
  shows "slice q data = []"
proof -
  have "\<not> (indexGe i ss \<and> indexLe i es)" for i
    using assms(3) by (auto simp: isNaN_def indexGe_def indexLe_def)
  then show ?thesis using assms(1,2) by (simp add: slice_def case_prod_unfold)
qed

lemma handleGetAll_resolved:
  assumes "buildFilter rx props q = Inr filt" and "exec filt (sortOf q) = Resolved data"
  shows "handleGetAll rx props exec am q x =
           sendCrbResult am (slice q data)
             (x\<lparr>headers := headers x @ [(''X-Total-Count'', length data)]\<rparr>)"
  using assms by (simp add: handleGetAll_def)


lemma forEachFilter_entries:
  assumes "forEachFilter rx q fs filt0 = Inr filt"
  shows "(k \<in> set fs \<longrightarrow> (\<exists>val v. map_of q k = Some val \<and> filterValue rx val = Inr v \<and> filt k = Some v))
       \<and> (k \<notin> set fs \<longrightarrow> filt k = filt0 k)"
  using assms
proof (induction fs arbitrary: filt0)
  case Nil
  then show ?case by simp
next
  case (Cons f fs)
  from Cons.prems obtain val v where val: "map_of q f = Some val"
    and v: "filterValue rx val = Inr v"
    and rest: "forEachFilter rx q fs (filt0(f \<mapsto> v)) = Inr filt"
    by (auto split: option.splits sum.splits)
  from Cons.IH [OF rest] show ?case
    using val v by (cases "k \<in> set fs") auto
qed

lemma buildFilter_entries:
  assumes "buildFilter rx props q = Inr filt"
  shows "(k \<in> set props \<and> k \<in> fst ` set q
            \<longrightarrow> (\<exists>val v. map_of q k = Some val \<and> filterValue rx val = Inr v \<and> filt k = Some v))
       \<and> (\<not> (k \<in> set props \<and> k \<in> fst ` set q) \<longrightarrow> filt k = None)"
proof -
  let ?fs = "filter (\<lambda>param. param \<in> set props) (map fst q)"
  have fe: "forEachFilter rx q ?fs Map.empty = Inr filt"
    using assms by (simp add: buildFilter_def)
  have mem: "k \<in> set ?fs \<longleftrightarrow> k \<in> set props \<and> k \<in> fst ` set q" by auto
  show ?thesis
    using forEachFilter_entries [OF fe, of k] mem by auto
qed

lemma toLowerChar_cases:
  assumes "toLowerChar a = c"
  shows "a = c \<or> a = char_of ((of_char c :: nat) - 32)"
proof (cases "(65 \<le> (of_char a :: nat) \<and> (of_char a :: nat) \<le> 90)
    \<or> (192 \<le> (of_char a :: nat) \<and> (of_char a :: nat) \<le> 222 \<and> (of_char a :: nat) \<noteq> 215)")
  case True
  then have "char_of ((of_char a :: nat) + 32) = c"
    using assms by (simp add: toLowerChar_def)
  then have "take_bit 8 ((of_char a :: nat) + 32) = (of_char c :: nat)"
    by (simp add: char_of_eq_iff)
  moreover have "take_bit 8 ((of_char a :: nat) + 32) = (of_char a :: nat) + 32"
    using True by (auto simp: take_bit_nat_eq_self_iff)
  ultimately have "(of_char a :: nat) = of_char c - 32" by simp
  then have "char_of (of_char a :: nat) = char_of ((of_char c :: nat) - 32)" by simp
  then show ?thesis by simp
next
  case False
  then show ?thesis using assms by (auto simp: toLowerChar_def)
qed

lemma upper_letters:
  "char_of ((of_char CHR ''t'' :: nat) - 32) = CHR ''T''"
  "char_of ((of_char CHR ''r'' :: nat) - 32) = CHR ''R''"
  "char_of ((of_char CHR ''u'' :: nat) - 32) = CHR ''U''"
  "char_of ((of_char CHR ''e'' :: nat) - 32) = CHR ''E''"
  "char_of ((of_char CHR ''f'' :: nat) - 32) = CHR ''F''"
  "char_of ((of_char CHR ''a'' :: nat) - 32) = CHR ''A''"
  "char_of ((of_char CHR ''l'' :: nat) - 32) = CHR ''L''"
  "char_of ((of_char CHR ''s'' :: nat) - 32) = CHR ''S''"
  by (simp_all add: char_of_eq_iff)

lemma true_variants:
  assumes "toLowerCase val = ''true''"
  shows "val \<in> set (List.product_lists [''tT'', ''rR'', ''uU'', ''eE''])"
proof -
  from assms obtain a b c d where val: "val = [a, b, c, d]"
    and l: "toLowerChar a = CHR ''t''" "toLowerChar b = CHR ''r''"
        "toLowerChar c = CHR ''u''" "toLowerChar d = CHR ''e''"
    by (auto simp: toLowerCase_def map_eq_Cons_conv)
  have "a = CHR ''t'' \<or> a = CHR ''T''"
    using toLowerChar_cases [OF l(1)] by (simp only: upper_letters)
  moreover have "b = CHR ''r'' \<or> b = CHR ''R''"
    using toLowerChar_cases [OF l(2)] by (simp only: upper_letters)
  moreover have "c = CHR ''u'' \<or> c = CHR ''U''"
    using toLowerChar_cases [OF l(3)] by (simp only: upper_letters)
  moreover have "d = CHR ''e'' \<or> d = CHR ''E''"
    using toLowerChar_cases [OF l(4)] by (simp only: upper_letters)
  ultimately have "list_all2 (\<lambda>x ys. x \<in> set ys) [a, b, c, d] [''tT'', ''rR'', ''uU'', ''eE'']"
    by simp
  then show ?thesis
    unfolding val by (simp only: product_lists_set mem_Collect_eq)
qed


lemma true_isNaN:
  assumes "toLowerCase val = ''true''"
  shows "isNaN val"
proof -
  have "list_all (\<lambda>s. StringToNumber s = NaN) (List.product_lists [''tT'', ''rR'', ''uU'', ''eE''])"
    by code_simp
  then show ?thesis
    using true_variants [OF assms] by (simp only: list_all_iff isNaN_def)
qed

lemma false_variants:
  assumes "toLowerCase val = ''false''"
  shows "val \<in> set (List.product_lists [''fF'', ''aA'', ''lL'', ''sS'', ''eE''])"
proof -
  from assms obtain a b c d e where val: "val = [a, b, c, d, e]"
    and l: "toLowerChar a = CHR ''f''" "toLowerChar b = CHR ''a''"
        "toLowerChar c = CHR ''l''" "toLowerChar d = CHR ''s''" "toLowerChar e = CHR ''e''"
    by (auto simp: toLowerCase_def map_eq_Cons_conv)
  have "a = CHR ''f'' \<or> a = CHR ''F''"
    using toLowerChar_cases [OF l(1)] by (simp only: upper_letters)
  moreover have "b = CHR ''a'' \<or> b = CHR ''A''"
    using toLowerChar_cases [OF l(2)] by (simp only: upper_letters)
  moreover have "c = CHR ''l'' \<or> c = CHR ''L''"
    using toLowerChar_cases [OF l(3)] by (simp only: upper_letters)
  moreover have "d = CHR ''s'' \<or> d = CHR ''S''"
    using toLowerChar_cases [OF l(4)] by (simp only: upper_letters)
  moreover have "e = CHR ''e'' \<or> e = CHR ''E''"
    using toLowerChar_cases [OF l(5)] by (simp only: upper_letters)
  ultimately have "list_all2 (\<lambda>x ys. x \<in> set ys) [a, b, c, d, e] [''fF'', ''aA'', ''lL'', ''sS'', ''eE'']"
    by simp
  then show ?thesis
    unfolding val by (simp only: product_lists_set mem_Collect_eq)
qed

lemma false_isNaN:
  assumes "toLowerCase val = ''false''"
  shows "isNaN val"
proof -
  have "list_all (\<lambda>s. StringToNumber s = NaN)
          (List.product_lists [''fF'', ''aA'', ''lL'', ''sS'', ''eE''])"
    by code_simp
  then show ?thesis
    using false_variants [OF assms] by (simp only: list_all_iff isNaN_def)
qed

lemma filterValue_cases:
  "(\<not> isNaN val \<longrightarrow> filterValue rx val = Inr (FNumber (Number val)))
   \<and> (toLowerCase val = ''true'' \<longrightarrow> filterValue rx val = Inr (FBool True))
   \<and> (toLowerCase val = ''false'' \<longrightarrow> filterValue rx val = Inr (FBool False))
   \<and> (isNaN val \<and> toLowerCase val \<noteq> ''true'' \<and> toLowerCase val \<noteq> ''false''
        \<longrightarrow> filterValue rx val =
              (case rx val of None \<Rightarrow> Inr (FRegExp val ''i'') | Some e \<Rightarrow> Inl e))
   \<and> (toLowerCase val \<in> {''true'', ''false''} \<longrightarrow> isNaN val)
   \<and> (\<forall>filt. buildFilter rx props q = Inr filt \<longrightarrow>
         (\<forall>k v. map_of q k = Some v \<and> k \<in> set props
             \<longrightarrow> (\<exists>w. filterValue rx v = Inr w \<and> filt k = Some w))
       \<and> (\<forall>k. map_of q k = None \<or> k \<notin> set props \<longrightarrow> filt k = None))
   \<and> (\<forall>e. buildFilter rx props q = Inl e \<longrightarrow> handleGetAll rx props exec am q x = callNext (Some e) x)"
proof -
  have nan: "isNaN val" if "toLowerCase val \<in> {''true'', ''false''}"
    using that true_isNaN false_isNaN by blast
  have 1: "filterValue rx val = Inr (FNumber (Number val))" if "\<not> isNaN val"
    using that by (simp add: filterValue_def)
  have 2: "filterValue rx val = Inr (FBool True)" if "toLowerCase val = ''true''"
    using that true_isNaN [OF that] by (simp add: filterValue_def)
  have 3: "filterValue rx val = Inr (FBool False)" if "toLowerCase val = ''false''"
    using that false_isNaN [OF that] by (simp add: filterValue_def)
  have 4: "filterValue rx val = (case rx val of None \<Rightarrow> Inr (FRegExp val ''i'') | Some e \<Rightarrow> Inl e)"
    if "isNaN val \<and> toLowerCase val \<noteq> ''true'' \<and> toLowerCase val \<noteq> ''false''"
    using that by (simp add: filterValue_def split: option.splits)
  have 5: "\<exists>w. filterValue rx v = Inr w \<and> filt k = Some w"
    if "buildFilter rx props q = Inr filt" "map_of q k = Some v \<and> k \<in> set props" for filt k v
  proof -
    have "k \<in> fst ` set q" using that(2) by (auto dest: map_of_SomeD intro: rev_image_eqI)
    then show ?thesis
      using buildFilter_entries [OF that(1), of k] that(2) by auto
  qed
  have 6: "filt k = None"
    if "buildFilter rx props q = Inr filt" "map_of q k = None \<or> k \<notin> set props" for filt k
    using buildFilter_entries [OF that(1), of k] that(2) by (auto simp: map_of_eq_None_iff)
  have 7: "handleGetAll rx props exec am q x = callNext (Some e) x"
    if "buildFilter rx props q = Inl e" for e
    using that by (simp add: handleGetAll_def)
  show ?thesis using nan 1 2 3 4 5 6 7 by blast
qed

subsection \<open>The list action and the other default actions\<close>

text \<open>
  C3. On a list request whose query resolves with \<open>data\<close>, the header X-Total-Count is
  the length of \<open>data\<close>. When \<^verbatim>\<open>_start\<close> and \<^verbatim>\<open>_end\<close> are both present and denote the
  naturals \<open>s \<le> e\<close>, the array dispatched is the elements of \<open>data\<close> at the indices
  \<open>s\<close> to \<open>e\<close>: \<open>e - s + 1\<close> of them, or as many as \<open>data\<close> has from \<open>s\<close> on. When one
  of the two parameters is absent, the whole of \<open>data\<close> is dispatched.
\<close>

theorem list_slice_and_total_count:
  assumes "buildFilter rx props q = Inr filt" and "exec filt (sortOf q) = Resolved data"
  shows "headers (handleGetAll rx props exec am q x) = headers x @ [(''X-Total-Count'', length data)]
    \<and> (\<forall>ss es s e.
          map_of q ''_start'' = Some ss \<and> map_of q ''_end'' = Some es
          \<and> StringToNumber ss = Finite (of_nat s) \<and> StringToNumber es = Finite (of_nat e) \<and> s \<le> e
        \<longrightarrow> handleGetAll rx props exec am q x =
              sendCrbResult am (take (e - s + 1) (drop s data))
                (x\<lparr>headers := headers x @ [(''X-Total-Count'', length data)]\<rparr>)
            \<and> length (take (e - s + 1) (drop s data)) = min (e - s + 1) (length data - s)
            \<and> (\<forall>k < length (take (e - s + 1) (drop s data)).
                  take (e - s + 1) (drop s data) ! k = data ! (s + k)))
    \<and> (map_of q ''_start'' = None \<or> map_of q ''_end'' = None
        \<longrightarrow> handleGetAll rx props exec am q x =
              sendCrbResult am data
                (x\<lparr>headers := headers x @ [(''X-Total-Count'', length data)]\<rparr>))"
proof -
  have h: "handleGetAll rx props exec am q x =
           sendCrbResult am (slice q data)
             (x\<lparr>headers := headers x @ [(''X-Total-Count'', length data)]\<rparr>)"
    using assms by (rule handleGetAll_resolved)
  have 1: "headers (handleGetAll rx props exec am q x)
             = headers x @ [(''X-Total-Count'', length data)]"
    by (simp add: h sendCrbResult_def)
  have 2: "handleGetAll rx props exec am q x =
              sendCrbResult am (take (e - s + 1) (drop s data))
                (x\<lparr>headers := headers x @ [(''X-Total-Count'', length data)]\<rparr>)
            \<and> length (take (e - s + 1) (drop s data)) = min (e - s + 1) (length data - s)
            \<and> (\<forall>k < length (take (e - s + 1) (drop s data)).
                  take (e - s + 1) (drop s data) ! k = data ! (s + k))"
    if "map_of q ''_start'' = Some ss \<and> map_of q ''_end'' = Some es
          \<and> StringToNumber ss = Finite (of_nat s) \<and> StringToNumber es = Finite (of_nat e) \<and> s \<le> e"
    for ss es s e
  proof -
    have "slice q data = take (e - s + 1) (drop s data)"
      using that slice_both by blast
    then show ?thesis by (auto simp: h min.commute)
  qed
  have 3: "handleGetAll rx props exec am q x =
              sendCrbResult am data
                (x\<lparr>headers := headers x @ [(''X-Total-Count'', length data)]\<rparr>)"
    if "map_of q ''_start'' = None \<or> map_of q ''_end'' = None"
    using that by (simp add: h slice_absent)
  show ?thesis using 1 2 3 by blast
qed

theorem list_slice_and_total_count_witness:
  "handleGetAll (\<lambda>_. None) [''name''] (\<lambda>filt srt. Resolved [10, 20, 30, 40 :: nat])
      emptyMiddlewareRef [(''_start'', ''1''), (''_end'', ''2'')]
      \<lparr>crbResult = None, headers = [], sent = [], nexts = []\<rparr>
    = \<lparr>crbResult = None, headers = [(''X-Total-Count'', 4)], sent = [[20, 30]], nexts = []\<rparr>"
proof -
  have h1: "buildFilter (\<lambda>_. None) [''name''] [(''_start'', ''1''), (''_end'', ''2'')] = Inr Map.empty"
    by (simp add: buildFilter_def)
  have h2: "(\<lambda>filt srt. Resolved [10, 20, 30, 40 :: nat]) Map.empty
              (sortOf [(''_start'', ''1''), (''_end'', ''2'')]) = Resolved [10, 20, 30, 40]"
    by simp
  have h3: "map_of [(''_start'', ''1''), (''_end'', ''2'')] ''_start'' = Some ''1''
      \<and> map_of [(''_start'', ''1''), (''_end'', ''2'')] ''_end'' = Some ''2''
      \<and> StringToNumber ''1'' = Finite (of_nat 1) \<and> StringToNumber ''2'' = Finite (of_nat 2)
      \<and> (1::nat) \<le> 2"
    using StringToNumber_1 StringToNumber_2 by simp
  from list_slice_and_total_count [OF h1 h2, THEN conjunct2, THEN conjunct1, rule_format, OF h3,
         of emptyMiddlewareRef "\<lparr>crbResult = None, headers = [], sent = [], nexts = []\<rparr>"]
  show ?thesis by (simp add: sendCrbResult_def)
qed

text \<open>
  Against C9 as it is worded: with both bounds empty (\<^verbatim>\<open>GET /all?_start=&_end=\<close>)
  neither is a number a reader would parse, and the list action sends the first element,
  since the empty string converts to 0 and the bounds are taken as 0 and 0. The header is
  3, the body has one element.
\<close>

theorem list_slice_empty_bounds_counterexample:
  "handleGetAll (\<lambda>_. None) [''name''] (\<lambda>filt srt. Resolved [10, 20, 30 :: nat])
      emptyMiddlewareRef [(''_start'', []), (''_end'', [])]
      \<lparr>crbResult = None, headers = [], sent = [], nexts = []\<rparr>
    = \<lparr>crbResult = None, headers = [(''X-Total-Count'', 3)], sent = [[10]], nexts = []\<rparr>"
proof -
  have b: "buildFilter (\<lambda>_. None) [''name''] [(''_start'', []), (''_end'', [])] = Inr Map.empty"
    by (simp add: buildFilter_def)
  have z: "StringToNumber [] = Finite (of_nat 0)"
    using StringToNumber_blank [of "[]"] by simp
  have "slice [(''_start'', []), (''_end'', [])] [10, 20, 30 :: nat]
          = take (0 - 0 + 1) (drop 0 [10, 20, 30])"
    by (rule slice_both [OF _ _ z z]) simp_all
  then show ?thesis
    by (simp add: handleGetAll_def b sendCrbResult_def)
qed

text \<open>
  C9, as the code has it. On a list request with \<^verbatim>\<open>_start\<close> and \<^verbatim>\<open>_end\<close> both present,
  if one of them converts to NaN then no index passes the comparison: the array dispatched is
  empty, while X-Total-Count is still the length of the data the query resolved with. A
  bound that converts to NaN is never empty or blank: it has a character that is not white
  space.
\<close>

theorem list_slice_NaN_bound:
  assumes "buildFilter rx props q = Inr filt" and "exec filt (sortOf q) = Resolved data"
    and "map_of q ''_start'' = Some ss" and "map_of q ''_end'' = Some es"
    and "isNaN ss \<or> isNaN es"
  shows "handleGetAll rx props exec am q x =
           sendCrbResult am [] (x\<lparr>headers := headers x @ [(''X-Total-Count'', length data)]\<rparr>)
       \<and> (isNaN ss \<longrightarrow> (\<exists>c\<in>set ss. \<not> isStrWhiteSpaceChar c))
       \<and> (isNaN es \<longrightarrow> (\<exists>c\<in>set es. \<not> isStrWhiteSpaceChar c))"
proof -
  have "handleGetAll rx props exec am q x =
           sendCrbResult am (slice q data)
             (x\<lparr>headers := headers x @ [(''X-Total-Count'', length data)]\<rparr>)"
    using assms(1,2) by (rule handleGetAll_resolved)
  then have 1: "handleGetAll rx props exec am q x =
           sendCrbResult am [] (x\<lparr>headers := headers x @ [(''X-Total-Count'', length data)]\<rparr>)"
    using slice_NaN [OF assms(3,4,5), of data] by simp
  have 2: "\<exists>c\<in>set v. \<not> isStrWhiteSpaceChar c" if "isNaN v" for v
  proof (rule ccontr)
    assume "\<not> (\<exists>c\<in>set v. \<not> isStrWhiteSpaceChar c)"
    then have "StringToNumber v = Finite 0" by (intro StringToNumber_blank) simp
    then show False using that by (simp add: isNaN_def)
  qed
  show ?thesis using 1 2 by blast
qed

theorem list_slice_NaN_bound_witness:
  "handleGetAll (\<lambda>_. None) [''name''] (\<lambda>filt srt. Resolved [10, 20, 30, 40 :: nat])
      emptyMiddlewareRef [(''_start'', ''abc''), (''_end'', ''2'')]
      \<lparr>crbResult = None, headers = [], sent = [], nexts = []\<rparr>
    = \<lparr>crbResult = None, headers = [(''X-Total-Count'', 4)], sent = [[]], nexts = []\<rparr>
   \<and> isNaN ''abc'' \<and> \<not> isNaN [CHR 0xA0, CHR '' '']"
proof -
  have h1: "buildFilter (\<lambda>_. None) [''name''] [(''_start'', ''abc''), (''_end'', ''2'')] = Inr Map.empty"
    by (simp add: buildFilter_def)
  have h2: "(\<lambda>filt srt. Resolved [10, 20, 30, 40 :: nat]) Map.empty
              (sortOf [(''_start'', ''abc''), (''_end'', ''2'')]) = Resolved [10, 20, 30, 40]"
    by simp
  have h3: "map_of [(''_start'', ''abc''), (''_end'', ''2'')] ''_start'' = Some ''abc''"
    by simp
  have h4: "map_of [(''_start'', ''abc''), (''_end'', ''2'')] ''_end'' = Some ''2''"
    by simp
  have n: "isNaN ''abc''"
    using StringToNumber_abc by (simp add: isNaN_def)
  then have h5: "isNaN ''abc'' \<or> isNaN ''2''" by simp
  have w: "\<not> isNaN [CHR 0xA0, CHR '' '']"
    using StringToNumber_blank [of "[CHR 0xA0, CHR '' '']"]
    by (simp add: isNaN_def isStrWhiteSpaceChar_def)
  from list_slice_NaN_bound [OF h1 h2 h3 h4 h5,
         of emptyMiddlewareRef "\<lparr>crbResult = None, headers = [], sent = [], nexts = []\<rparr>"] n w
  show ?thesis by (simp add: sendCrbResult_def)
qed

text \<open>
  C8. \<^verbatim>\<open>query.sort\<close> is called exactly when \<^verbatim>\<open>_sort\<close> is present and not empty and
  \<^verbatim>\<open>_order\<close> is \<^verbatim>\<open>ASC\<close> (direction 1) or \<^verbatim>\<open>DESC\<close> (direction -1). With any other
  \<^verbatim>\<open>_order\<close> the handler behaves as it does on an unsorted query: when the filter is built
  and the unsorted query resolves, the result is dispatched and no error is passed on.
\<close>

theorem sort_only_for_ASC_or_DESC:
  "(sortOf q = Some (f, d) \<longleftrightarrow>
      map_of q ''_sort'' = Some f \<and> f \<noteq> []
      \<and> (map_of q ''_order'' = Some ''ASC'' \<and> d = 1 \<or> map_of q ''_order'' = Some ''DESC'' \<and> d = - 1))
   \<and> (map_of q ''_order'' \<noteq> Some ''ASC'' \<and> map_of q ''_order'' \<noteq> Some ''DESC''
      \<longrightarrow> sortOf q = None
          \<and> handleGetAll rx props exec am q x
              = handleGetAll rx props (\<lambda>filt srt. exec filt None) am q x
          \<and> (\<forall>filt data. buildFilter rx props q = Inr filt \<and> exec filt None = Resolved data
                \<longrightarrow> handleGetAll rx props exec am q x =
                      sendCrbResult am (slice q data)
                        (x\<lparr>headers := headers x @ [(''X-Total-Count'', length data)]\<rparr>)))"
proof -
  have 1: "sortOf q = Some (f, d) \<longleftrightarrow>
      map_of q ''_sort'' = Some f \<and> f \<noteq> []
      \<and> (map_of q ''_order'' = Some ''ASC'' \<and> d = 1 \<or> map_of q ''_order'' = Some ''DESC'' \<and> d = - 1)"
    by (auto simp: sortOf_def present_def split: option.splits)
  have 2: "sortOf q = None"
    if "map_of q ''_order'' \<noteq> Some ''ASC'' \<and> map_of q ''_order'' \<noteq> Some ''DESC''"
    using that by (simp add: sortOf_def)
  have 3: "handleGetAll rx props exec am q x
              = handleGetAll rx props (\<lambda>filt srt. exec filt None) am q x"
    if "map_of q ''_order'' \<noteq> Some ''ASC'' \<and> map_of q ''_order'' \<noteq> Some ''DESC''"
    using 2 [OF that] by (simp add: handleGetAll_def split: sum.splits)
  have 4: "handleGetAll rx props exec am q x =
                      sendCrbResult am (slice q data)
                        (x\<lparr>headers := headers x @ [(''X-Total-Count'', length data)]\<rparr>)"
    if "map_of q ''_order'' \<noteq> Some ''ASC'' \<and> map_of q ''_order'' \<noteq> Some ''DESC''"
      and "buildFilter rx props q = Inr filt \<and> exec filt None = Resolved data" for filt data
    using 2 [OF that(1)] that(2) by (simp add: handleGetAll_def)
  show ?thesis using 1 2 3 4 by blast
qed

theorem sort_only_for_ASC_or_DESC_witness:
  "sortOf [(''_sort'', ''name''), (''_order'', ''asc'')] = None
   \<and> sortOf [(''_sort'', ''name''), (''_order'', ''DESC'')] = Some (''name'', - 1)
   \<and> handleGetAll (\<lambda>_. None) [''name''] (\<lambda>filt srt. Resolved [10, 20 :: nat])
        emptyMiddlewareRef [(''_sort'', ''name''), (''_order'', ''asc'')]
        \<lparr>crbResult = None, headers = [], sent = [], nexts = []\<rparr>
     = \<lparr>crbResult = None, headers = [(''X-Total-Count'', 2)], sent = [[10, 20]], nexts = []\<rparr>"
proof -
  have h: "map_of [(''_sort'', ''name''), (''_order'', ''asc'')] ''_order'' \<noteq> Some ''ASC''
     \<and> map_of [(''_sort'', ''name''), (''_order'', ''asc'')] ''_order'' \<noteq> Some ''DESC''"
    by simp
  have b: "buildFilter (\<lambda>_. None) [''name''] [(''_sort'', ''name''), (''_order'', ''asc'')] = Inr Map.empty
     \<and> (\<lambda>filt srt. Resolved [10, 20 :: nat]) Map.empty None = Resolved [10, 20]"
    by (simp add: buildFilter_def)
  note T = sort_only_for_ASC_or_DESC [of "[(''_sort'', ''name''), (''_order'', ''asc'')]" _ _
        "\<lambda>_. None" "[''name'']" "\<lambda>filt srt. Resolved [10, 20 :: nat]" emptyMiddlewareRef
        "\<lparr>crbResult = None, headers = [], sent = [], nexts = []\<rparr>", THEN conjunct2, THEN mp, OF h]
  have 1: "sortOf [(''_sort'', ''name''), (''_order'', ''asc'')] = None"
    using T by simp
  have 2: "handleGetAll (\<lambda>_. None) [''name''] (\<lambda>filt srt. Resolved [10, 20 :: nat])
        emptyMiddlewareRef [(''_sort'', ''name''), (''_order'', ''asc'')]
        \<lparr>crbResult = None, headers = [], sent = [], nexts = []\<rparr>
     = \<lparr>crbResult = None, headers = [(''X-Total-Count'', 2)], sent = [[10, 20]], nexts = []\<rparr>"
    using T [THEN conjunct2, THEN conjunct2, rule_format, OF b]
    by (simp add: sendCrbResult_def slice_def)
  have 3: "sortOf [(''_sort'', ''name''), (''_order'', ''DESC'')] = Some (''name'', - 1)"
    by (simp add: sortOf_def present_def)
  show ?thesis using 1 2 3 by simp
qed

text \<open>
  C4, at the values the code gets wrong. A value of a recognised parameter that is empty or
  consists of white space only (\<^verbatim>\<open>GET /all?name=\<close>) has no digit and is neither true
  nor false, yet \<^verbatim>\<open>isNaN\<close> is false of it: the branch commented \<^verbatim>\<open>Value is a Number\<close>
  is taken and the parameter is entered into the filter as the number 0, not as a pattern.
\<close>

theorem filterValue_blank_entered_as_zero:
  assumes "\<forall>c\<in>set val. isStrWhiteSpaceChar c"
  shows "filterValue rx val = Inr (FNumber (Finite 0))
       \<and> filterValue rx val \<noteq> Inr (FRegExp val ''i'')
       \<and> buildFilter rx [f] [(f, val)] = Inr [f \<mapsto> FNumber (Finite 0)]"
proof -
  have z: "StringToNumber val = Finite 0"
    using assms by (rule StringToNumber_blank)
  then have v: "filterValue rx val = Inr (FNumber (Finite 0))"
    by (simp add: filterValue_def isNaN_def Number_def)
  then have "buildFilter rx [f] [(f, val)] = Inr [f \<mapsto> FNumber (Finite 0)]"
    by (simp add: buildFilter_def)
  then show ?thesis using v by simp
qed

theorem filterValue_blank_entered_as_zero_witness:
  "filterValue (\<lambda>_. None) [] = Inr (FNumber (Finite 0))
   \<and> buildFilter (\<lambda>_. None) [''name''] [(''name'', [])] = Inr [''name'' \<mapsto> FNumber (Finite 0)]
   \<and> filterValue (\<lambda>_. None) [CHR 0xA0, CHR '' ''] = Inr (FNumber (Finite 0))"
proof -
  have e: "\<forall>c\<in>set []. isStrWhiteSpaceChar c"
    by simp
  have b: "\<forall>c\<in>set [CHR 0xA0, CHR '' '']. isStrWhiteSpaceChar c"
    by (simp add: isStrWhiteSpaceChar_def)
  from filterValue_blank_entered_as_zero [OF e, of "\<lambda>_. None" "''name''"]
    filterValue_blank_entered_as_zero [OF b, of "\<lambda>_. None" "''name''"]
  show ?thesis by simp
qed

text \<open>
  C2, as the code has it. When the data-access promise is rejected, the list, get-one,
  update and create actions call \<^verbatim>\<open>next\<close> with an error of status 400 that carries the
  rejection's message, and neither send nor store a result; a call of \<^verbatim>\<open>next\<close> with an
  argument hands the request to the router's error handling, past the after-handler. The
  delete action has no rejection handler: it calls neither \<^verbatim>\<open>next\<close> nor \<^verbatim>\<open>res.send\<close>.
\<close>

theorem default_actions_on_rejection:
  "(\<forall>filt. buildFilter rx props q = Inr filt \<and> exec filt (sortOf q) = Rejected e
       \<longrightarrow> handleGetAll rx props exec am q x = x\<lparr>nexts := nexts x @ [Some (Err 400 (message e))]\<rparr>)
   \<and> handleGetSingle (Rejected e) am y = y\<lparr>nexts := nexts y @ [Some (Err 400 (message e))]\<rparr>
   \<and> handlePut (Rejected e) am y = y\<lparr>nexts := nexts y @ [Some (Err 400 (message e))]\<rparr>
   \<and> handlePost (Rejected e) am y = y\<lparr>nexts := nexts y @ [Some (Err 400 (message e))]\<rparr>
   \<and> handleDelete (Rejected e) am y = y"
  by (simp add: handleGetAll_def handleGetSingle_def handlePut_def handlePost_def
        handleDelete_def callNext_def)

theorem default_actions_on_rejection_witness:
  "handleDelete (Rejected (ErrorObject None (Some ''Cast to ObjectId failed'')))
       (JFunction PlainFunction (UserFunction 1))
       (\<lparr>crbResult = None, headers = [], sent = [], nexts = []\<rparr> :: nat exchange)
     = \<lparr>crbResult = None, headers = [], sent = [], nexts = []\<rparr>
   \<and> handleGetSingle (Rejected (ErrorObject None (Some ''Cast to ObjectId failed'')))
       (JFunction PlainFunction (UserFunction 1))
       (\<lparr>crbResult = None, headers = [], sent = [], nexts = []\<rparr> :: nat exchange)
     = \<lparr>crbResult = None, headers = [], sent = [],
        nexts = [Some (ErrorObject (Some 400) (Some ''Cast to ObjectId failed''))]\<rparr>"
  using default_actions_on_rejection
    [of "\<lambda>_. None" "[]" "[]" "\<lambda>_ _. Rejected (ErrorObject None (Some ''Cast to ObjectId failed''))"
        "ErrorObject None (Some ''Cast to ObjectId failed'')"
        "JFunction PlainFunction (UserFunction 1)"
        "\<lparr>crbResult = None, headers = [], sent = [], nexts = []\<rparr> :: nat list exchange"
        "\<lparr>crbResult = None, headers = [], sent = [], nexts = []\<rparr> :: nat exchange"]
  by (simp add: Err_def)


end
